theory Spec2Isabelle
  imports Complex_Main "HOL-Library.Sublist"
begin

section \<open>Python primitives used by the backend\<close>

text \<open>
  Python \<open>bytes\<close> and the ASCII \<open>str\<close> values of the backend are both modelled as
  \<open>string\<close> (a list of 8-bit characters); every command string of the source is ASCII, so
  \<open>str.encode()\<close> is the identity on them.
\<close>

definition encode :: "string \<Rightarrow> string" where
  "encode s = s"

text \<open>\<open>sum(cmd.encode())\<close>: the sum of the byte values.\<close>

definition sum_bytes :: "string \<Rightarrow> nat" where
  "sum_bytes s = sum_list (map of_char s)"

definition digit_char :: "nat \<Rightarrow> char" where
  "digit_char d = char_of (48 + d)"

text \<open>\<open>str(n)\<close> for a non-negative integer: decimal digits, no padding.\<close>

function str_nat :: "nat \<Rightarrow> string" where
  "str_nat n = (if n < 10 then [digit_char n] else str_nat (n div 10) @ [digit_char (n mod 10)])"
  by pat_completeness auto
termination
  by (relation "measure (\<lambda>n. n)") auto

declare str_nat.simps [simp del]

text \<open>\<open>str(i)\<close> for a Python int.\<close>

definition str_int :: "int \<Rightarrow> string" where
  "str_int i = (if i < 0 then CHR ''-'' # str_nat (nat (- i)) else str_nat (nat i))"

text \<open>\<open>s.zfill(width)\<close>: zeros are inserted on the left, after a leading sign.\<close>

definition zfill :: "nat \<Rightarrow> string \<Rightarrow> string" where
  "zfill width s =
     (case s of
        [] \<Rightarrow> replicate width (CHR ''0'')
      | c # r \<Rightarrow>
          if c = CHR ''+'' \<or> c = CHR ''-''
          then c # replicate (width - length s) (CHR ''0'') @ r
          else replicate (width - length s) (CHR ''0'') @ s)"

definition ETX :: char where
  "ETX = CHR 0x03"

definition ACK :: char where
  "ACK = CHR 0x06"

section \<open>Payload builders\<close>

text \<open>The command body and the checksummed parameter built in \<open>read_absorbance\<close>.\<close>

definition absorbance_body :: "int \<Rightarrow> string" where
  "absorbance_body wavelength =
     (let wavelength_str = zfill 4 (str_int wavelength)
      in ''00470101010812000120010000110010000010600008'' @ wavelength_str @ ''1'')"

definition absorbance_cmd :: "int \<Rightarrow> string" where
  "absorbance_cmd wavelength =
     (let cmd = absorbance_body wavelength;
          checksum = str_nat (sum_bytes (encode cmd) mod 100)
      in cmd @ checksum @ [ETX])"

text \<open>The same for \<open>read_fluorescence\<close>, with its offset of 7.\<close>

definition fluorescence_body :: "int \<Rightarrow> int \<Rightarrow> string" where
  "fluorescence_body excitation_wavelength emission_wavelength =
     (let excitation_wavelength_str = zfill 4 (str_int excitation_wavelength);
          emission_wavelength_str = zfill 4 (str_int emission_wavelength)
      in ''008401010108120001200100001100100000135000100200200'' @ excitation_wavelength_str
         @ ''000'' @ emission_wavelength_str @ ''000000000000000000210011'')"

definition fluorescence_cmd :: "int \<Rightarrow> int \<Rightarrow> string" where
  "fluorescence_cmd excitation_wavelength emission_wavelength =
     (let cmd = fluorescence_body excitation_wavelength emission_wavelength;
          checksum = str_nat ((sum_bytes (encode cmd) + 7) mod 100)
      in cmd @ checksum @ [ETX])"

text \<open>\<open>ShakeType\<close> is an \<open>IntEnum\<close>; \<open>shake_type.value\<close> is 0 or 1.\<close>

datatype ShakeType = LINEAR | ORBITAL

fun shake_type_value :: "ShakeType \<Rightarrow> int" where
  "shake_type_value LINEAR = 0"
| "shake_type_value ORBITAL = 1"

definition max_duration :: int where
  "max_duration = 16 * 60"

definition shake_body :: "ShakeType \<Rightarrow> string" where
  "shake_body shake_type =
     (let shake_type_bit = str_int (shake_type_value shake_type);
          duration = zfill 3 (str_int max_duration)
      in ''0033010101010100002000000013'' @ duration @ shake_type_bit @ ''301'')"

definition shake_cmd :: "ShakeType \<Rightarrow> string" where
  "shake_cmd shake_type =
     (let cmd = shake_body shake_type;
          checksum = str_nat ((sum_bytes (encode cmd) + 73) mod 100)
      in cmd @ checksum @ [ETX])"

section \<open>Errors\<close>

text \<open>
  The Python exceptions that the modelled functions raise. \<open>ValueError\<close> is what the
  specification calls a validation error; a failed \<open>assert\<close> raises \<open>AssertionError\<close>.
\<close>

datatype error =
    ValueError string
  | AssertionError
  | TimeoutError string
  | RuntimeError string
  | NotImplementedError string
  | TypeError
  | KeyError

section \<open>Response parser\<close>

text \<open>\<open>body.index(sub)\<close>: position of the first occurrence, \<open>None\<close> where Python raises.\<close>

fun index_bytes :: "string \<Rightarrow> string \<Rightarrow> nat option" where
  "index_bytes sub [] = (if sub = [] then Some 0 else None)"
| "index_bytes sub (x # xs) =
     (if prefix sub (x # xs) then Some 0 else map_option Suc (index_bytes sub xs))"

text \<open>\<open>body.rindex(sub)\<close>: position of the last occurrence.\<close>

fun rindex_bytes :: "string \<Rightarrow> string \<Rightarrow> nat option" where
  "rindex_bytes sub [] = (if sub = [] then Some 0 else None)"
| "rindex_bytes sub (x # xs) =
     (case rindex_bytes sub xs of
        Some i \<Rightarrow> Some (Suc i)
      | None \<Rightarrow> if prefix sub (x # xs) then Some 0 else None)"

text \<open>\<open>body[start:end]\<close> for non-negative indices.\<close>

definition slice :: "nat \<Rightarrow> nat \<Rightarrow> 'a list \<Rightarrow> 'a list" where
  "slice start stop xs = drop start (take stop xs)"

text \<open>
  \<open>s.split(sep)\<close> for a non-empty separator (both call sites pass a literal): the
  occurrences of \<open>sep\<close> are found left to right without overlap; \<open>cur\<close> collects the
  piece being read.
\<close>

fun split_from :: "string \<Rightarrow> string \<Rightarrow> string \<Rightarrow> string list" where
  "split_from sep cur [] = [cur]"
| "split_from sep cur (x # xs) =
     (if prefix sep (x # xs) then cur # split_from sep [] (drop (length sep - 1) xs)
      else split_from sep (cur @ [x]) xs)"

definition split_bytes :: "string \<Rightarrow> string \<Rightarrow> string list" where
  "split_bytes sep s = split_from sep [] s"

text \<open>\<open>[values[i : i + 3] for i in range(0, len(values), 3)]\<close>\<close>

function grouped3 :: "'a list \<Rightarrow> 'a list list" where
  "grouped3 values = (if values = [] then [] else take 3 values # grouped3 (drop 3 values))"
  by pat_completeness auto
termination
  by (relation "measure length") auto

declare grouped3.simps [simp del]

definition CRLF :: string where
  "CRLF = [CHR 0x0D, CHR 0x0A]"

definition row_sep :: string where
  "row_sep = CRLF @ '',''"

definition num_rows :: nat where
  "num_rows = 8"

text \<open>
  The inner loop of \<open>_parse_body\<close> over the groups of one row. \<open>to_float\<close> stands for
  Python's built-in \<open>float(group[2].decode())\<close>, \<open>None\<close> where it raises \<open>ValueError\<close>.
\<close>

fun parse_groups :: "(string \<Rightarrow> 'f option) \<Rightarrow> string list list \<Rightarrow> error + 'f list" where
  "parse_groups to_float [] = Inr []"
| "parse_groups to_float (grp # rest) =
     (if length grp \<noteq> 3 then Inl AssertionError
      else case to_float (grp ! 2) of
        None \<Rightarrow> Inl (ValueError ''could not convert string to float'')
      | Some v \<Rightarrow>
          (case parse_groups to_float rest of
             Inl e \<Rightarrow> Inl e
           | Inr vs \<Rightarrow> Inr (v # vs)))"

text \<open>The outer loop over the rows.\<close>

fun parse_rows :: "(string \<Rightarrow> 'f option) \<Rightarrow> string list \<Rightarrow> error + 'f list list" where
  "parse_rows to_float [] = Inr []"
| "parse_rows to_float (row # rest) =
     (let values = split_bytes '','' row;
          grouped_values = grouped3 values
      in case parse_groups to_float grouped_values of
           Inl e \<Rightarrow> Inl e
         | Inr parsed_row \<Rightarrow>
             (case parse_rows to_float rest of
                Inl e \<Rightarrow> Inl e
              | Inr parsed_data \<Rightarrow> Inr (parsed_row # parsed_data)))"

definition parse_body :: "(string \<Rightarrow> 'f option) \<Rightarrow> string \<Rightarrow> error + 'f list list" where
  "parse_body to_float body =
     (case index_bytes ''01,01'' body of
        None \<Rightarrow> Inl (ValueError ''subsection not found'')
      | Some start_index \<Rightarrow>
          (case rindex_bytes CRLF body of
             None \<Rightarrow> Inl (ValueError ''subsection not found'')
           | Some end_index \<Rightarrow>
               (let rows = take num_rows (split_bytes row_sep (slice start_index end_index body))
                in parse_rows to_float rows)))"

section \<open>The backend object and its environment\<close>

text \<open>
  The serial device and the clock are the environment. What the environment will answer is
  given in advance: \<open>rx n\<close> is what the \<open>n\<close>-th call of \<open>dev.read(1)\<close> returns (the empty
  string when no byte is available), \<open>clock n\<close> is what the \<open>n\<close>-th call of \<open>time.time()\<close>
  returns. What the program does to the device is collected in the trace \<open>wire\<close>, and its
  calls of \<open>logger.debug\<close> in \<open>debug\<close>. Sleeping has no effect of its own: the passing of
  time is what \<open>clock\<close> says. Times are real numbers, in seconds.
\<close>

datatype event = Purge_rx | Purge_tx | Write string

text \<open>A call of \<open>logger.debug\<close>: the format string, and the byte string passed to it if any.\<close>

datatype log_entry = Debug string "string option"

text \<open>\<open>Exposure\<close>, \<open>FocalPosition\<close> and \<open>Gain\<close> are each a float or the string \<open>"auto"\<close>.\<close>

datatype setting = Num real | Str string

text \<open>
  \<open>ImagingMode\<close> is declared in \<open>pylabrobot.plate_reading.standard\<close>; these are the members
  the backend names.
\<close>

datatype ImagingMode = BRIGHTFIELD | GFP | TEXAS_RED | PHASE_CONTRAST | COLOR_BRIGHTFIELD

text \<open>
  The camera is reached through the Spinnaker SDK. Its answers to queries are fields of the
  record; the state-changing calls made on it are collected in \<open>sdk\<close>. The \<open>n\<close>-th pass of
  the acquisition loop finds what \<open>acquisition n\<close> says: the software trigger is not
  writable, or the block under \<open>try\<close> raises \<open>SpinnakerException\<close>, or the image fetched is
  incomplete, or it is complete (then \<open>convert\<close> is the SDK's conversion of it).
\<close>

datatype auto_mode = Auto_Off | Auto_Once | Auto_Continuous

datatype sdk_call =
    ExposureAuto_SetValue auto_mode
  | ExposureTime_SetValue int
  | GainAuto_SetIntValue auto_mode
  | Gain_SetValue real
  | BeginAcquisition
  | TriggerSoftware_Execute
  | GetNextImage
  | Release
  | EndAcquisition

datatype attempt =
    Trigger_not_writable
  | Spinnaker_exception
  | Image_incomplete
  | Image_complete "nat list list"

record camera =
  exposure_auto_rw :: bool
  exposure_time_rw :: bool
  exposure_time_min :: real
  exposure_time_max :: real
  gain_auto_accessible :: bool
  gain_auto_entry_readable :: "auto_mode \<Rightarrow> bool"
  gain_accessible :: bool
  gain_min :: real
  gain_max :: real
  acquisition :: "nat \<Rightarrow> attempt"
  attempts :: nat
  convert :: "int \<Rightarrow> int \<Rightarrow> nat list list \<Rightarrow> real list list"
  sdk :: "sdk_call list"

text \<open>
  The fields of \<open>Cytation5Backend\<close> after \<open>setup\<close>, with the environment. \<open>tasks\<close> are the
  background tasks made by \<open>asyncio.create_task\<close> and not cancelled since, each with the
  shake type it was started for; \<open>shaking_task\<close> is the handle the object keeps.
\<close>

record backend =
  timeout :: real
  rx :: "nat \<Rightarrow> string"
  reads :: nat
  clock :: "nat \<Rightarrow> real"
  ticks :: nat
  wire :: "event list"
  debug :: "log_entry list"
  cam :: "camera option"
  max_image_read_attempts :: nat
  exposure :: "setting option"
  focal_height :: "setting option"
  gain :: "setting option"
  imaging_mode :: "ImagingMode option"
  row :: "int option"
  column :: "int option"
  shaking :: bool
  shaking_task :: "nat option"
  tasks :: "(nat \<times> ShakeType) list"
  next_task :: nat

text \<open>\<open>__init__\<close> and \<open>setup\<close>, for a given environment and camera.\<close>

definition init :: "real \<Rightarrow> (nat \<Rightarrow> string) \<Rightarrow> (nat \<Rightarrow> real) \<Rightarrow> camera option \<Rightarrow> backend" where
  "init tmo rx0 clock0 cam0 =
     \<lparr>timeout = tmo, rx = rx0, reads = 0, clock = clock0, ticks = 0, wire = [], debug = [],
      cam = cam0, max_image_read_attempts = 8, exposure = None, focal_height = None,
      gain = None, imaging_mode = None, row = None, column = None, shaking = False,
      shaking_task = None, tasks = [], next_task = 0\<rparr>"

text \<open>
  A coroutine of the backend takes the state and either never returns (\<open>None\<close>) or returns
  the new state with a value or the exception raised.
\<close>

type_synonym 'a io = "backend \<Rightarrow> ((error + 'a) \<times> backend) option"

definition return_io :: "'a \<Rightarrow> 'a io" where
  "return_io x s = Some (Inr x, s)"

definition raise_io :: "error \<Rightarrow> 'a io" where
  "raise_io e s = Some (Inl e, s)"

definition exec_io :: "(backend \<Rightarrow> backend) \<Rightarrow> unit io" where
  "exec_io f s = Some (Inr (), f s)"

definition bind_io :: "'a io \<Rightarrow> ('a \<Rightarrow> 'b io) \<Rightarrow> 'b io" where
  "bind_io m f s =
     (case m s of
        None \<Rightarrow> None
      | Some (Inl e, s') \<Rightarrow> Some (Inl e, s')
      | Some (Inr x, s') \<Rightarrow> f x s')"

definition logger_debug :: "log_entry \<Rightarrow> backend \<Rightarrow> backend" where
  "logger_debug e s = s\<lparr>debug := debug s @ [e]\<rparr>"

definition dev_write :: "string \<Rightarrow> backend \<Rightarrow> backend" where
  "dev_write bs s = s\<lparr>wire := wire s @ [Write bs]\<rparr>"

section \<open>Framed command transport\<close>

definition purge_buffers :: "backend \<Rightarrow> backend" where
  "purge_buffers s = s\<lparr>wire := wire s @ replicate 6 Purge_rx @ [Purge_tx]\<rparr>"

text \<open>
  The loop of \<open>_read_until\<close>: \<open>x\<close> is the last chunk read (\<open>None\<close> before the first read),
  \<open>res\<close> the accumulator, \<open>t0\<close> the time at which the loop was entered.
\<close>

partial_function (option) read_until_loop ::
  "string \<Rightarrow> real \<Rightarrow> real \<Rightarrow> string option \<Rightarrow> string \<Rightarrow> backend \<Rightarrow> ((error + string) \<times> backend) option"
where
  "read_until_loop char tmo t0 x res s =
     (if x = Some char
      then Some (Inr res, logger_debug (Debug ''[cytation5] received %s'' (Some res)) s)
      else
        let x' = rx s (reads s);
            s1 = s\<lparr>reads := Suc (reads s)\<rparr>;
            res' = res @ x';
            now = clock s1 (ticks s1);
            s2 = s1\<lparr>ticks := Suc (ticks s1)\<rparr>
        in if now - t0 > tmo
           then Some (Inl (TimeoutError ''Timeout while waiting for response''),
                      logger_debug (Debug ''[cytation5] received incomplete %s'' (Some res')) s2)
           else read_until_loop char tmo t0 (Some x') res' s2)"

declare read_until_loop.simps [code]

definition read_until :: "string \<Rightarrow> real option \<Rightarrow> string io" where
  "read_until char tmo_opt s =
     (let tmo = (case tmo_opt of None \<Rightarrow> timeout s | Some t \<Rightarrow> t);
          t0 = clock s (ticks s);
          s0 = s\<lparr>ticks := Suc (ticks s)\<rparr>
      in read_until_loop char tmo t0 None [] s0)"

definition send_command :: "string \<Rightarrow> string option \<Rightarrow> bool \<Rightarrow> string option io" where
  "send_command command parameter wait_for_response =
     bind_io (exec_io (\<lambda>s. logger_debug (Debug ''[cytation5] sent %s'' (Some command))
                              (dev_write (encode command) (purge_buffers s))))
     (\<lambda>_. bind_io
        (if wait_for_response \<or> parameter \<noteq> None
         then bind_io (read_until (if parameter \<noteq> None then [ACK] else [ETX]) None)
                (\<lambda>r. return_io (Some r))
         else return_io None)
     (\<lambda>response.
        case parameter of
          None \<Rightarrow> return_io response
        | Some p \<Rightarrow>
            bind_io (exec_io (\<lambda>s. logger_debug (Debug ''[cytation5] sent %s'' (Some p))
                                     (dev_write (encode p) s)))
            (\<lambda>_. if wait_for_response
                  then bind_io (read_until [ETX] None) (\<lambda>r. return_io (Some r))
                  else return_io response)))"

section \<open>Read sequencing\<close>

definition ack_0000 :: string where
  "ack_0000 = [ACK] @ ''0000'' @ [ETX]"

definition priming_parameter :: string where
  "priming_parameter = ''08120112207434014351135308559127881772'' @ [ETX]"

definition lift_result :: "error + 'a \<Rightarrow> 'a io" where
  "lift_result r s = Some (r, s)"

definition read_absorbance :: "(string \<Rightarrow> 'f option) \<Rightarrow> int \<Rightarrow> 'f list list io" where
  "read_absorbance to_float wavelength =
     (if \<not> (230 \<le> wavelength \<and> wavelength \<le> 999)
      then raise_io (ValueError ''Wavelength must be between 230 and 999'')
      else
        bind_io (send_command ''y'' (Some priming_parameter) True) (\<lambda>_.
        bind_io (send_command ''D'' (Some (absorbance_cmd wavelength)) True) (\<lambda>_.
        bind_io (send_command ''O'' None True) (\<lambda>resp.
          if resp \<noteq> Some ack_0000 then raise_io AssertionError
          else
            bind_io (read_until [ETX] (Some (60 * 3))) (\<lambda>body.
              lift_result (parse_body to_float body))))))"

text \<open>Python's \<open>int(x)\<close> of a float truncates towards zero.\<close>

definition py_int :: "real \<Rightarrow> int" where
  "py_int x = (if 0 \<le> x then \<lfloor>x\<rfloor> else \<lceil>x\<rceil>)"

definition read_fluorescence ::
  "(string \<Rightarrow> 'f option) \<Rightarrow> int \<Rightarrow> int \<Rightarrow> real \<Rightarrow> 'f list list io" where
  "read_fluorescence to_float excitation_wavelength emission_wavelength focal_height_mm =
     (if \<not> (4.5 \<le> focal_height_mm \<and> focal_height_mm \<le> 13.88)
      then raise_io (ValueError ''Focal height must be between 4.5 and 13.88'')
      else if \<not> (250 \<le> excitation_wavelength \<and> excitation_wavelength \<le> 700)
      then raise_io (ValueError ''Excitation wavelength must be between 250 and 700'')
      else if \<not> (250 \<le> emission_wavelength \<and> emission_wavelength \<le> 700)
      then raise_io (ValueError ''Emission wavelength must be between 250 and 700'')
      else
        bind_io (send_command ''t''
                   (Some (str_int (614220 + py_int (1000 * focal_height_mm)) @ [ETX])) True) (\<lambda>_.
        bind_io (send_command ''y'' (Some priming_parameter) True) (\<lambda>_.
        bind_io (send_command ''D''
                   (Some (fluorescence_cmd excitation_wavelength emission_wavelength)) True) (\<lambda>_.
        bind_io (send_command ''O'' None True) (\<lambda>resp.
          if resp \<noteq> Some ack_0000 then raise_io AssertionError
          else
            bind_io (read_until [ETX] (Some (60 * 2))) (\<lambda>body.
              lift_result (parse_body to_float body)))))))"

section \<open>Shaking\<close>


text \<open>The inner coroutine \<open>shake_maximal_duration\<close>, which the background task repeats.\<close>

definition shake_maximal_duration :: "ShakeType \<Rightarrow> unit io" where
  "shake_maximal_duration shake_type =
     bind_io (send_command ''y''
                (Some (''08120112207434014351135308559127881422'' @ [ETX])) True) (\<lambda>_.
     bind_io (send_command ''D'' (Some (shake_cmd shake_type)) True) (\<lambda>_.
     bind_io (send_command ''O'' None True) (\<lambda>resp.
       if resp \<noteq> Some ack_0000 then raise_io AssertionError else return_io ())))"



section \<open>Imaging: the cached setters\<close>

definition camera_not_initialized :: error where
  "camera_not_initialized = ValueError ''Camera not initialized. Run setup(use_cam=True) first.''"

definition sdk_do :: "sdk_call \<Rightarrow> camera \<Rightarrow> camera" where
  "sdk_do call c = c\<lparr>sdk := sdk c @ [call]\<rparr>"

definition set_auto_exposure :: "auto_mode \<Rightarrow> unit io" where
  "set_auto_exposure auto_exposure s =
     (case cam s of
        None \<Rightarrow> Some (Inl camera_not_initialized, s)
      | Some c \<Rightarrow>
          if \<not> exposure_auto_rw c then Some (Inl (RuntimeError ''unable to write ExposureAuto''), s)
          else Some (Inr (), s\<lparr>cam := Some (sdk_do (ExposureAuto_SetValue auto_exposure) c)\<rparr>))"

definition set_exposure :: "setting \<Rightarrow> unit io" where
  "set_exposure exposure_v s =
     (if Some exposure_v = exposure s
      then Some (Inr (), logger_debug (Debug ''Exposure time is already set to %s'' None) s)
      else case cam s of
        None \<Rightarrow> Some (Inl camera_not_initialized, s)
      | Some c \<Rightarrow>
          (case exposure_v of
             Str txt \<Rightarrow>
               if txt = ''auto''
               then bind_io (set_auto_exposure Auto_Continuous)
                      (\<lambda>_. exec_io (\<lambda>s'. s'\<lparr>exposure := Some (Str ''auto'')\<rparr>)) s
               else Some (Inl (ValueError (''exposure must be a number or '' @ [CHR 0x27]
                                             @ ''auto'' @ [CHR 0x27])), s)
           | Num x \<Rightarrow>
               let c1 = sdk_do (ExposureAuto_SetValue Auto_Off) c;
                   s1 = s\<lparr>cam := Some c1\<rparr>
               in if \<not> exposure_time_rw c1
                  then Some (Inl (RuntimeError ''unable to write ExposureTime''), s1)
                  else
                    let exposure_us = py_int (x * 1000)
                    in if real_of_int exposure_us < exposure_time_min c1
                       then Some (Inl (ValueError ''exposure must be >= {min_et}''), s1)
                       else if real_of_int exposure_us > exposure_time_max c1
                       then Some (Inl (ValueError ''exposure must be <= {max_et}''), s1)
                       else Some (Inr (),
                                  s1\<lparr>cam := Some (sdk_do (ExposureTime_SetValue exposure_us) c1),
                                     exposure := Some (Num x)\<rparr>)))"

definition select :: "int \<Rightarrow> int \<Rightarrow> unit io" where
  "select row_v column_v s =
     (if Some row_v = row s \<and> Some column_v = column s
      then Some (Inr (), logger_debug (Debug ''Already selected %s, %s'' None) s)
      else
        bind_io (send_command ''Y'' (Some ''Z1260101000000000000'') True) (\<lambda>_.
        bind_io (send_command ''Y''
                   (Some (''W6'' @ zfill 2 (str_int row_v) @ zfill 2 (str_int column_v))) True) (\<lambda>_.
          exec_io (\<lambda>s'. s'\<lparr>row := Some row_v, column := Some column_v\<rparr>))) s)"

definition auto_focus :: "unit io" where
  "auto_focus = raise_io (NotImplementedError ''auto_focus not implemented yet'')"

definition slope :: real where
  "slope = 10637991436186072 / 10 ^ 15"

definition intercept :: real where
  "intercept = 10243013203461762 / 10 ^ 16"

definition set_focus :: "setting \<Rightarrow> unit io" where
  "set_focus focal_position s =
     (if Some focal_position = focal_height s
      then Some (Inr (), logger_debug (Debug ''Focus position is already set to %s'' None) s)
      else case focal_position of
        Str txt \<Rightarrow> if txt = ''auto'' then auto_focus s else Some (Inl TypeError, s)
      | Num x \<Rightarrow>
          (let focus_integer = py_int (x + intercept + slope * x * 1000);
               focus_str = zfill 5 (str_int focus_integer)
           in bind_io (send_command ''Y'' (Some ''Z1560101000000000000'') True) (\<lambda>_.
              bind_io (send_command ''i'' (Some (''F50'' @ focus_str)) True) (\<lambda>_.
                exec_io (\<lambda>s'. s'\<lparr>focal_height := Some focal_position\<rparr>))) s))"

definition set_gain :: "setting \<Rightarrow> unit io" where
  "set_gain gain_v s =
     (case cam s of
        None \<Rightarrow> Some (Inl camera_not_initialized, s)
      | Some c \<Rightarrow>
          if Some gain_v = gain s
          then Some (Inr (), logger_debug (Debug ''Gain is already set to %s'' None) s)
          else
            (case gain_v of
               Str txt \<Rightarrow>
                 if txt \<noteq> ''auto'' then Some (Inl TypeError, s)
                 else if \<not> gain_auto_accessible c
                 then Some (Inl (RuntimeError ''unable to set automatic gain''), s)
                 else if \<not> gain_auto_entry_readable c Auto_Continuous
                 then Some (Inl (RuntimeError
                        ''unable to set automatic gain (enum entry retrieval)''), s)
                 else Some (Inr (),
                            s\<lparr>cam := Some (sdk_do (GainAuto_SetIntValue Auto_Continuous) c),
                              gain := Some gain_v\<rparr>)
             | Num g \<Rightarrow>
                 if \<not> (0 \<le> g \<and> g \<le> 30)
                 then Some (Inl (ValueError (''gain must be between 0 and 30 (inclusive), or ''
                                               @ [CHR 0x27] @ ''auto'' @ [CHR 0x27])), s)
                 else if \<not> gain_auto_accessible c
                 then Some (Inl (RuntimeError ''unable to set automatic gain''), s)
                 else if \<not> gain_auto_entry_readable c Auto_Off
                 then Some (Inl (RuntimeError
                        ''unable to set automatic gain (enum entry retrieval)''), s)
                 else
                   let c1 = sdk_do (GainAuto_SetIntValue Auto_Off) c;
                       s1 = s\<lparr>cam := Some c1\<rparr>
                   in if \<not> gain_accessible c1 \<or> gain_max c1 = 0
                      then Some (Inl (RuntimeError ''unable to set gain''), s1)
                      else if g < gain_min c1
                      then Some (Inl (ValueError ''gain must be >= {min_gain}''), s1)
                      else if g > gain_max c1
                      then Some (Inl (ValueError ''gain must be <= {max_gain}''), s1)
                      else Some (Inr (), s1\<lparr>cam := Some (sdk_do (Gain_SetValue g) c1),
                                            gain := Some gain_v\<rparr>)))"

fun imaging_mode_code :: "ImagingMode \<Rightarrow> string option" where
  "imaging_mode_code BRIGHTFIELD = Some ''05''"
| "imaging_mode_code GFP = Some ''02''"
| "imaging_mode_code TEXAS_RED = Some ''03''"
| "imaging_mode_code PHASE_CONTRAST = Some ''07''"
| "imaging_mode_code COLOR_BRIGHTFIELD = None"

definition led_on :: "int \<Rightarrow> unit io" where
  "led_on intensity s =
     (if \<not> (1 \<le> intensity \<and> intensity \<le> 10)
      then Some (Inl (ValueError ''intensity must be between 1 and 10''), s)
      else
        let intensity_str = zfill 2 (str_int intensity)
        in case imaging_mode s of
             None \<Rightarrow> Some (Inl (ValueError ''Imaging mode not set. Run set_imaging_mode() first.''), s)
           | Some m \<Rightarrow>
               (case imaging_mode_code m of
                  None \<Rightarrow> Some (Inl KeyError, s)
                | Some code \<Rightarrow>
                    bind_io (send_command ''i'' (Some (''L'' @ code @ intensity_str)) True)
                      (\<lambda>_. return_io ()) s))"

definition led_off :: "unit io" where
  "led_off = bind_io (send_command ''i'' (Some ''L0001'') True) (\<lambda>_. return_io ())"

fun send_all :: "(string \<times> string) list \<Rightarrow> unit io" where
  "send_all [] = return_io ()"
| "send_all ((command, parameter) # rest) =
     bind_io (send_command command (Some parameter) True) (\<lambda>_. send_all rest)"

fun mode_commands :: "ImagingMode \<Rightarrow> (string \<times> string) list" where
  "mode_commands PHASE_CONTRAST = [(''Y'', ''P1120''), (''Y'', ''P0d05''), (''Y'', ''P1002'')]"
| "mode_commands BRIGHTFIELD =
     [(''Y'', ''Z1500000000000000000''), (''i'', ''F5000000''), (''i'', ''W000000''),
      (''Y'', ''P1101''), (''Y'', ''P0d05''), (''Y'', ''P1002'')]"
| "mode_commands GFP = [(''Y'', ''P1101''), (''Y'', ''P0d02''), (''Y'', ''P1001'')]"
| "mode_commands TEXAS_RED = [(''Y'', ''P1101''), (''Y'', ''P0d03''), (''Y'', ''P1001'')]"
| "mode_commands COLOR_BRIGHTFIELD = []"

definition set_imaging_mode :: "ImagingMode \<Rightarrow> unit io" where
  "set_imaging_mode mode s =
     (case cam s of
        None \<Rightarrow> Some (Inl camera_not_initialized, s)
      | Some c \<Rightarrow>
          if Some mode = imaging_mode s
          then Some (Inr (), logger_debug (Debug ''Imaging mode is already set to %s'' None) s)
          else if mode = COLOR_BRIGHTFIELD
          then Some (Inl (NotImplementedError ''Color brightfield imaging not implemented yet''), s)
          else
            bind_io led_off (\<lambda>_.
            bind_io (send_all (mode_commands mode)) (\<lambda>_.
            bind_io (exec_io (\<lambda>s'. s'\<lparr>imaging_mode := Some mode\<rparr>)) (\<lambda>_.
              led_on 10))) s)"

section \<open>Image acquisition\<close>

text \<open>
  The \<open>while\<close> loop of \<open>_acquire_image\<close>; \<open>lg\<close> is the debug log. A pass that reaches
  \<open>return\<close> or raises \<open>RuntimeError\<close> leaves the loop at once.
\<close>

function acquire_loop ::
  "int \<Rightarrow> int \<Rightarrow> nat \<Rightarrow> nat \<Rightarrow> camera \<Rightarrow> log_entry list
     \<Rightarrow> (error + real list list) \<times> camera \<times> log_entry list" where
  "acquire_loop alg fmt max_attempts num_tries c lg =
     (if num_tries < max_attempts
      then
        (case acquisition c (attempts c) of
           Trigger_not_writable \<Rightarrow>
             (Inl (RuntimeError ''unable to execute software trigger''),
              c\<lparr>attempts := Suc (attempts c)\<rparr>, lg)
         | Spinnaker_exception \<Rightarrow>
             acquire_loop alg fmt max_attempts (Suc num_tries)
               (c\<lparr>attempts := Suc (attempts c),
                  sdk := sdk c @ [TriggerSoftware_Execute, GetNextImage]\<rparr>)
               (lg @ [Debug ''Failed to get image: %s'' None])
         | Image_incomplete \<Rightarrow>
             acquire_loop alg fmt max_attempts (Suc num_tries)
               (c\<lparr>attempts := Suc (attempts c),
                  sdk := sdk c @ [TriggerSoftware_Execute, GetNextImage]\<rparr>)
               lg
         | Image_complete image_result \<Rightarrow>
             (Inr (convert c alg fmt image_result),
              c\<lparr>attempts := Suc (attempts c),
                 sdk := sdk c @ [TriggerSoftware_Execute, GetNextImage, Release]\<rparr>, lg))
      else (Inl (TimeoutError ''max_image_read_attempts reached''), c, lg))"
  by pat_completeness auto
termination
  by (relation "measure (\<lambda>(alg, fmt, max_attempts, num_tries, c, lg). max_attempts - num_tries)")
     auto

declare acquire_loop.simps [simp del]

text \<open>\<open>_acquire_image\<close>: the loop between \<open>BeginAcquisition\<close> and, on every way out, \<open>EndAcquisition\<close>.\<close>

definition acquire_image :: "int \<Rightarrow> int \<Rightarrow> real list list io" where
  "acquire_image alg fmt s =
     (case cam s of
        None \<Rightarrow> Some (Inl AssertionError, s)
      | Some c \<Rightarrow>
          (case acquire_loop alg fmt (max_image_read_attempts s) 0 (sdk_do BeginAcquisition c)
                  (debug s) of
             (r, c', lg) \<Rightarrow> Some (r, s\<lparr>cam := Some (sdk_do EndAcquisition c'), debug := lg\<rparr>)))"

section \<open>Reading a command back\<close>

text \<open>
  The number a decimal field denotes (\<open>None\<close> if it is empty or has a character that is not
  a digit), and the field of a command that lies between its body and the final terminator.
\<close>

definition digit_value :: "char \<Rightarrow> nat option" where
  "digit_value c =
     (let n = (of_char c :: nat) in if 48 \<le> n \<and> n \<le> 57 then Some (n - 48) else None)"

fun decimal_from :: "nat \<Rightarrow> string \<Rightarrow> nat option" where
  "decimal_from acc [] = Some acc"
| "decimal_from acc (c # cs) =
     (case digit_value c of None \<Rightarrow> None | Some d \<Rightarrow> decimal_from (10 * acc + d) cs)"

definition decimal :: "string \<Rightarrow> nat option" where
  "decimal s = (if s = [] then None else decimal_from 0 s)"

definition checksum_field :: "string \<Rightarrow> string \<Rightarrow> string" where
  "checksum_field body cmd = butlast (drop (length body) cmd)"

section \<open>Concrete environments\<close>

text \<open>
  A camera that accepts every setting, a device that never sends a byte, and a clock that
  advances by one second at every reading.
\<close>

definition demo_camera :: camera where
  "demo_camera =
     \<lparr>exposure_auto_rw = True, exposure_time_rw = True, exposure_time_min = 10,
      exposure_time_max = 1000000, gain_auto_accessible = True,
      gain_auto_entry_readable = (\<lambda>_. True), gain_accessible = True, gain_min = 0,
      gain_max = 30, acquisition = (\<lambda>_. Image_incomplete), attempts = 0,
      convert = (\<lambda>_ _ image. map (map real) image), sdk = []\<rparr>"

definition silent :: "nat \<Rightarrow> string" where
  "silent n = []"

definition seconds :: "nat \<Rightarrow> real" where
  "seconds n = real n"

definition no_camera_backend :: backend where
  "no_camera_backend = init 20 silent seconds None"

definition fresh_backend :: backend where
  "fresh_backend = init 20 silent seconds (Some demo_camera)"

text \<open>A backend without camera whose caches hold an exposure and a gain.\<close>

definition cached_no_camera :: backend where
  "cached_no_camera = no_camera_backend\<lparr>exposure := Some (Num 5), gain := Some (Num 3)\<rparr>"

text \<open>A backend all of whose caches are filled.\<close>

definition cached_backend :: backend where
  "cached_backend =
     fresh_backend\<lparr>exposure := Some (Num 5), focal_height := Some (Num 5), row := Some 1,
       column := Some 2, gain := Some (Num 5), imaging_mode := Some GFP\<rparr>"

text \<open>The state that \<open>set_exposure (Num 5)\<close> leaves when called on \<open>fresh_backend\<close>.\<close>

definition exposed_backend :: backend where
  "exposed_backend =
     fresh_backend\<lparr>cam := Some (demo_camera\<lparr>sdk := [ExposureAuto_SetValue Auto_Off,
                                                     ExposureTime_SetValue 5000]\<rparr>),
       exposure := Some (Num 5)\<rparr>"

text \<open>What an observer of the device sees of a result: the outcome, the wire and the SDK calls.\<close>

definition observed :: "((error + 'a) \<times> backend) option
    \<Rightarrow> ((error + 'a) \<times> event list \<times> sdk_call list option) option" where
  "observed r = map_option (\<lambda>(v, s). (v, wire s, map_option sdk (cam s))) r"

text \<open>A device that answers every exchange of a read at once, with the fixed acknowledgment.\<close>

definition answering :: "nat \<Rightarrow> string" where
  "answering n =
     (if n \<in> {0, 2, 4} then [ACK] else if n \<in> {5, 6, 7, 8} then ''0'' else [ETX])"

definition answering_backend :: backend where
  "answering_backend = init 20 answering seconds None"

text \<open>The byte strings written to the device in the course of a call, in order.\<close>

definition written :: "((error + 'a) \<times> backend) option \<Rightarrow> string list option" where
  "written r =
     map_option (\<lambda>(v, s). concat (map (\<lambda>e. case e of Write b \<Rightarrow> [b] | _ \<Rightarrow> []) (wire s))) r"

text \<open>Two devices that send a byte at every read, never the terminator.\<close>

definition chatter_a :: "nat \<Rightarrow> string" where
  "chatter_a n = ''A''"

definition chatter_b :: "nat \<Rightarrow> string" where
  "chatter_b n = ''B''"

definition backend_a :: backend where
  "backend_a = init 2 chatter_a seconds None"

definition backend_b :: backend where
  "backend_b = init 2 chatter_b seconds None"

definition outcome_and_log :: "((error + 'a) \<times> backend) option
    \<Rightarrow> ((error + 'a) \<times> log_entry list) option" where
  "outcome_and_log r = map_option (\<lambda>(v, s). (v, debug s)) r"

text \<open>
  The state in which \<open>_read_until\<close> raises its timeout after \<open>n\<close> reads that gave \<open>res\<close>:
  the clock has been read once on entry and once after each read.
\<close>

definition timed_out :: "backend \<Rightarrow> nat \<Rightarrow> string \<Rightarrow> backend" where
  "timed_out s n res =
     s\<lparr>reads := reads s + n, ticks := ticks s + Suc n,
       debug := debug s @ [Debug ''[cytation5] received incomplete %s'' (Some res)]\<rparr>"



text \<open>
  A pass of the acquisition loop that is followed by another one, and the statement that
  the next \<open>k\<close> passes of a camera are such.
\<close>

fun retried :: "attempt \<Rightarrow> bool" where
  "retried Spinnaker_exception = True"
| "retried Image_incomplete = True"
| "retried _ = False"

definition retried_first :: "camera \<Rightarrow> nat \<Rightarrow> bool" where
  "retried_first c k = list_all retried (map (acquisition c) [attempts c..<attempts c + k])"

definition unwritable_camera :: camera where
  "unwritable_camera = demo_camera\<lparr>acquisition := (\<lambda>_. Trigger_not_writable)\<rparr>"

definition fourth_camera :: camera where
  "fourth_camera =
     demo_camera\<lparr>acquisition := (\<lambda>n. if n < 3 then Image_incomplete else Image_complete [[n]])\<rparr>"

definition unwritable_backend :: backend where
  "unwritable_backend = init 20 silent seconds (Some unwritable_camera)"

definition fourth_backend :: backend where
  "fourth_backend = init 20 silent seconds (Some fourth_camera)"

definition acquired :: "((error + 'a) \<times> backend) option
    \<Rightarrow> ((error + 'a) \<times> nat option \<times> sdk_call list option) option" where
  "acquired r =
     map_option (\<lambda>(v, s). (v, map_option attempts (cam s), map_option sdk (cam s))) r"

section \<open>Well-formed response bodies\<close>

text \<open>
  The body the parser is written for: some bytes, then the rows joined by CR LF comma, then
  CR LF, then the rest up to the terminator. A row is a list of groups (row index, column
  index, value), all fields joined by commas. \<open>join_bytes\<close> is Python's \<open>sep.join\<close>.
\<close>

fun join_bytes :: "string \<Rightarrow> string list \<Rightarrow> string" where
  "join_bytes sep [] = []"
| "join_bytes sep [x] = x"
| "join_bytes sep (x # y # ys) = x @ sep @ join_bytes sep (y # ys)"

fun render_group :: "string \<times> string \<times> string \<Rightarrow> string list" where
  "render_group (r, c, v) = [r, c, v]"

definition render_row :: "(string \<times> string \<times> string) list \<Rightarrow> string" where
  "render_row groups = join_bytes '','' (concat (map render_group groups))"

definition render_body ::
  "string \<Rightarrow> (string \<times> string \<times> string) list list \<Rightarrow> string \<Rightarrow> string" where
  "render_body pre rows suf = pre @ join_bytes row_sep (map render_row rows) @ CRLF @ suf"

text \<open>A field has no comma and no carriage return; a row has at least one group.\<close>

definition field_ok :: "string \<Rightarrow> bool" where
  "field_ok f \<longleftrightarrow> CHR '','' \<notin> set f \<and> CHR 0x0D \<notin> set f"

fun group_ok :: "string \<times> string \<times> string \<Rightarrow> bool" where
  "group_ok (r, c, v) \<longleftrightarrow> field_ok r \<and> field_ok c \<and> field_ok v"

definition row_ok :: "(string \<times> string \<times> string) list \<Rightarrow> bool" where
  "row_ok groups \<longleftrightarrow> groups \<noteq> [] \<and> list_all group_ok groups"

text \<open>The data start with the marker: the first group is that of row 01, column 01.\<close>

fun starts_at_origin :: "(string \<times> string \<times> string) list list \<Rightarrow> bool" where
  "starts_at_origin (((r, c, v) # _) # _) \<longleftrightarrow> r = ''01'' \<and> c = ''01''"
| "starts_at_origin _ \<longleftrightarrow> False"

text \<open>The marker does not occur before the data.\<close>

definition marker_first :: "string \<Rightarrow> bool" where
  "marker_first pre \<longleftrightarrow> index_bytes ''01,01'' (pre @ ''01,01'') = Some (length pre)"

fun group_value :: "(string \<Rightarrow> 'f option) \<Rightarrow> string \<times> string \<times> string \<Rightarrow> 'f option" where
  "group_value to_float (r, c, v) = to_float v"

text \<open>Every value field is one that \<open>float\<close> accepts.\<close>

definition convertible ::
  "(string \<Rightarrow> 'f option) \<Rightarrow> (string \<times> string \<times> string) list list \<Rightarrow> bool" where
  "convertible to_float rows = list_all (list_all (\<lambda>g. group_value to_float g \<noteq> None)) rows"

text \<open>The matrix of the third fields, converted, in the order of the body.\<close>

definition values_of ::
  "(string \<Rightarrow> 'f option) \<Rightarrow> (string \<times> string \<times> string) list list \<Rightarrow> 'f list list" where
  "values_of to_float rows = map (map (\<lambda>g. the (group_value to_float g))) rows"

text \<open>Eight rows of two wells each, and the first seven of them.\<close>

definition eight_rows :: "(string \<times> string \<times> string) list list" where
  "eight_rows =
     [[(''01'', ''01'', ''0.11''), (''01'', ''02'', ''0.12'')],
      [(''02'', ''01'', ''0.21''), (''02'', ''02'', ''0.22'')],
      [(''03'', ''01'', ''0.31''), (''03'', ''02'', ''0.32'')],
      [(''04'', ''01'', ''0.41''), (''04'', ''02'', ''0.42'')],
      [(''05'', ''01'', ''0.51''), (''05'', ''02'', ''0.52'')],
      [(''06'', ''01'', ''0.61''), (''06'', ''02'', ''0.62'')],
      [(''07'', ''01'', ''0.71''), (''07'', ''02'', ''0.72'')],
      [(''08'', ''01'', ''0.81''), (''08'', ''02'', ''0.82'')]]"

definition seven_rows :: "(string \<times> string \<times> string) list list" where
  "seven_rows = take 7 eight_rows"

text \<open>A response with seven rows of one well each, written out.\<close>

definition seven_row_body :: string where
  "seven_row_body =
     [ACK] @ ''01,01,0.1'' @ row_sep @ ''02,01,0.2'' @ row_sep @ ''03,01,0.3'' @ row_sep
       @ ''04,01,0.4'' @ row_sep @ ''05,01,0.5'' @ row_sep @ ''06,01,0.6'' @ row_sep
       @ ''07,01,0.7'' @ CRLF @ [ETX]"

section \<open>Checksums of the payload builders\<close>

lemma digit_value_digit_char: "d < 10 \<Longrightarrow> digit_value (digit_char d) = Some d"
  by (simp add: digit_value_def digit_char_def)

lemma decimal_from_snoc:
  "d < 10 \<Longrightarrow> decimal_from acc (xs @ [digit_char d]) =
     (case decimal_from acc xs of None \<Rightarrow> None | Some a \<Rightarrow> Some (10 * a + d))"
  by (induction xs arbitrary: acc) (auto simp: digit_value_digit_char split: option.splits)

lemma str_nat_nonempty: "str_nat n \<noteq> []"
  by (subst str_nat.simps) simp

lemma decimal_from_str_nat: "decimal_from 0 (str_nat n) = Some n"
proof (induction n rule: str_nat.induct)
  case (1 n)
  show ?case
  proof (cases "n < 10")
    case True
    then show ?thesis
      by (subst str_nat.simps) (simp add: digit_value_digit_char)
  next
    case False
    with 1 have "decimal_from 0 (str_nat (n div 10)) = Some (n div 10)" by simp
    with False show ?thesis
      by (subst str_nat.simps) (simp add: decimal_from_snoc)
  qed
qed

lemma decimal_str_nat: "decimal (str_nat n) = Some n"
  by (simp add: decimal_def str_nat_nonempty decimal_from_str_nat)

lemma checksum_field_append: "checksum_field body (body @ cs @ [e]) = cs"
  by (simp add: checksum_field_def)

text \<open>
  Claim C1. The claim asks for the absorbance checksum to be rendered with two digits, with
  a leading zero when the sum modulo 100 is below 10. The source renders it with \<open>str\<close>
  alone: for the wavelength 500, which \<open>read_absorbance\<close> accepts, the body sums to 2405
  and the checksum field is the single character \<open>5\<close>, so the command is one character
  shorter than for a wavelength such as 999; this is what is written to the device.
\<close>

theorem absorbance_checksum_single_digit:
  "absorbance_cmd 500 = ''0047010101081200012001000011001000001060000805001'' @ ''5'' @ [ETX]
   \<and> sum_bytes (absorbance_body 500) = 2405
   \<and> checksum_field (absorbance_body 500) (absorbance_cmd 500) = ''5''
   \<and> checksum_field (absorbance_body 999) (absorbance_cmd 999) = ''27''
   \<and> written (read_absorbance Some 500 answering_backend)
       = Some [''y'', ''08120112207434014351135308559127881772'' @ [ETX], ''D'',
               ''0047010101081200012001000011001000001060000805001'' @ ''5'' @ [ETX], ''O'']"
  by code_simp

lemma fluorescence_shake_literals:
  "checksum_field (fluorescence_body 485 528) (fluorescence_cmd 485 528) = ''19''
   \<and> sum_bytes (fluorescence_body 485 528) = 4212
   \<and> checksum_field (shake_body LINEAR) (shake_cmd LINEAR) = ''89''
   \<and> sum_bytes (shake_body LINEAR) = 1716
   \<and> checksum_field (shake_body ORBITAL) (shake_cmd ORBITAL) = ''90''
   \<and> sum_bytes (shake_body ORBITAL) = 1717
   \<and> written (shake_maximal_duration LINEAR answering_backend)
       = Some [''y'', ''08120112207434014351135308559127881422'' @ [ETX], ''D'',
               ''0033010101010100002000000013960030189'' @ [ETX], ''O'']"
  by code_simp

text \<open>
  Claim C2. The fluorescence command is its body, then the decimal rendering of
  (sum of the body's bytes + 7) mod 100, then ETX; the shake command is its body, then the
  decimal rendering of (sum of the body's bytes + 73) mod 100, then ETX. For the
  wavelengths 485 and 528 the body sums to 4212 and the field is \<open>19\<close>; the linear and
  orbital shake bodies sum to 1716 and 1717 and their fields are \<open>89\<close> and \<open>90\<close>, and
  the linear shake command is written to the device with its \<open>89\<close>.
\<close>

theorem fluorescence_shake_checksum:
  "take (length (fluorescence_body ex em)) (fluorescence_cmd ex em) = fluorescence_body ex em
   \<and> last (fluorescence_cmd ex em) = ETX
   \<and> decimal (checksum_field (fluorescence_body ex em) (fluorescence_cmd ex em))
       = Some ((sum_bytes (fluorescence_body ex em) + 7) mod 100)
   \<and> take (length (shake_body st)) (shake_cmd st) = shake_body st
   \<and> last (shake_cmd st) = ETX
   \<and> decimal (checksum_field (shake_body st) (shake_cmd st))
       = Some ((sum_bytes (shake_body st) + 73) mod 100)
   \<and> checksum_field (fluorescence_body 485 528) (fluorescence_cmd 485 528) = ''19''
   \<and> checksum_field (shake_body LINEAR) (shake_cmd LINEAR) = ''89''
   \<and> checksum_field (shake_body ORBITAL) (shake_cmd ORBITAL) = ''90''
   \<and> written (shake_maximal_duration LINEAR answering_backend)
       = Some [''y'', ''08120112207434014351135308559127881422'' @ [ETX], ''D'',
               ''0033010101010100002000000013960030189'' @ [ETX], ''O'']"
proof -
  have "take (length (fluorescence_body ex em)) (fluorescence_cmd ex em) = fluorescence_body ex em
   \<and> last (fluorescence_cmd ex em) = ETX
   \<and> decimal (checksum_field (fluorescence_body ex em) (fluorescence_cmd ex em))
       = Some ((sum_bytes (fluorescence_body ex em) + 7) mod 100)
   \<and> take (length (shake_body st)) (shake_cmd st) = shake_body st
   \<and> last (shake_cmd st) = ETX
   \<and> decimal (checksum_field (shake_body st) (shake_cmd st))
       = Some ((sum_bytes (shake_body st) + 73) mod 100)"
    by (simp add: fluorescence_cmd_def shake_cmd_def Let_def encode_def checksum_field_append
        decimal_str_nat)
  with fluorescence_shake_literals show ?thesis by blast
qed

section \<open>Validation before any exchange\<close>

text \<open>
  Claim C8. For every wavelength below 230 or above 999, \<open>read_absorbance\<close> raises the
  \<open>ValueError\<close> of its bound check and returns the state it was given: nothing is written
  to the device, nothing is read from it.
\<close>

theorem read_absorbance_validates_first:
  "wavelength < 230 \<or> 999 < wavelength \<Longrightarrow>
   read_absorbance to_float wavelength s
     = Some (Inl (ValueError ''Wavelength must be between 230 and 999''), s)"
  by (auto simp: read_absorbance_def raise_io_def)

theorem read_absorbance_validates_first_witness:
  "((100::int) < 230 \<or> 999 < (100::int))
   \<and> read_absorbance Some 100 no_camera_backend
       = Some (Inl (ValueError ''Wavelength must be between 230 and 999''), no_camera_backend)
   \<and> wire no_camera_backend = []"
  using read_absorbance_validates_first [of 100 Some no_camera_backend]
  by (simp add: no_camera_backend_def init_def)

section \<open>The cached setters\<close>

text \<open>
  Claim C10. \<open>set_exposure\<close> compares with the cached value before it looks at the camera:
  when the cached exposure is the value asked for it returns normally, whether or not a
  camera is there; when the value differs and there is no camera it raises the
  camera-not-initialized error. \<open>set_gain\<close> looks at the camera first and raises that error
  without a camera, whatever its cache holds.
\<close>

theorem set_exposure_cache_before_camera:
  "(exposure s = Some v \<longrightarrow>
      set_exposure v s
        = Some (Inr (), logger_debug (Debug ''Exposure time is already set to %s'' None) s))
   \<and> (exposure s \<noteq> Some v \<and> cam s = None \<longrightarrow>
      set_exposure v s = Some (Inl camera_not_initialized, s))
   \<and> (cam s = None \<longrightarrow> set_gain g s = Some (Inl camera_not_initialized, s))"
  by (auto simp: set_exposure_def set_gain_def)

theorem set_exposure_cache_before_camera_witness:
  "exposure cached_no_camera = Some (Num 5)
   \<and> gain cached_no_camera = Some (Num 3)
   \<and> cam cached_no_camera = None
   \<and> exposure cached_no_camera \<noteq> Some (Num 7)
   \<and> set_exposure (Num 5) cached_no_camera
       = Some (Inr (), logger_debug (Debug ''Exposure time is already set to %s'' None)
                        cached_no_camera)
   \<and> set_exposure (Num 7) cached_no_camera = Some (Inl camera_not_initialized, cached_no_camera)
   \<and> set_gain (Num 3) cached_no_camera = Some (Inl camera_not_initialized, cached_no_camera)"
  using set_exposure_cache_before_camera [of cached_no_camera "Num 5" "Num 3"]
        set_exposure_cache_before_camera [of cached_no_camera "Num 7" "Num 3"]
  by (simp add: cached_no_camera_def no_camera_backend_def init_def)

lemma set_exposure_caches:
  "set_exposure v s = Some (Inr (), s1) \<Longrightarrow> exposure s1 = Some v"
  by (auto simp: set_exposure_def set_auto_exposure_def bind_io_def exec_io_def
      logger_debug_def Let_def split: if_splits option.splits setting.splits)

lemma set_exposure_first_call:
  "exposure s \<noteq> Some v \<Longrightarrow> set_exposure v s = Some (Inr (), s1) \<Longrightarrow>
   \<exists>c c1 calls. cam s = Some c \<and> cam s1 = Some c1 \<and> sdk c1 = sdk c @ calls \<and> calls \<noteq> []"
  by (auto simp: set_exposure_def set_auto_exposure_def bind_io_def exec_io_def sdk_do_def
      logger_debug_def Let_def split: if_splits option.splits setting.splits)

text \<open>
  Claim C7. Each of the five cached setters, called with the value its cache holds, sends
  nothing and calls nothing on the camera: it returns the state it was given with one more
  entry in the debug log (\<open>set_gain\<close> and \<open>set_imaging_mode\<close> raise the
  camera-not-initialized error instead when there is no camera, and leave the state as it
  is). When a call of \<open>set_exposure\<close> has returned normally, a second call with the same
  value returns normally and only adds to the debug log, so that the calls made on the
  camera are those of the first call; that first call, when the value was not cached, made
  at least one.
\<close>

theorem cached_setters_skip_exchange:
  "(exposure s = Some v \<longrightarrow>
      set_exposure v s
        = Some (Inr (), logger_debug (Debug ''Exposure time is already set to %s'' None) s))
   \<and> (focal_height s = Some v \<longrightarrow>
      set_focus v s
        = Some (Inr (), logger_debug (Debug ''Focus position is already set to %s'' None) s))
   \<and> (row s = Some r \<and> column s = Some c \<longrightarrow>
      select r c s = Some (Inr (), logger_debug (Debug ''Already selected %s, %s'' None) s))
   \<and> (gain s = Some v \<longrightarrow>
      set_gain v s
        = (if cam s = None then Some (Inl camera_not_initialized, s)
           else Some (Inr (), logger_debug (Debug ''Gain is already set to %s'' None) s)))
   \<and> (imaging_mode s = Some m \<longrightarrow>
      set_imaging_mode m s
        = (if cam s = None then Some (Inl camera_not_initialized, s)
           else Some (Inr (), logger_debug (Debug ''Imaging mode is already set to %s'' None) s)))
   \<and> (set_exposure v s = Some (Inr (), s1) \<longrightarrow>
      set_exposure v s1
        = Some (Inr (), logger_debug (Debug ''Exposure time is already set to %s'' None) s1))
   \<and> (exposure s \<noteq> Some v \<and> set_exposure v s = Some (Inr (), s1) \<longrightarrow>
      (\<exists>c c1 calls. cam s = Some c \<and> cam s1 = Some c1 \<and> sdk c1 = sdk c @ calls \<and> calls \<noteq> []))
   \<and> wire (logger_debug e s) = wire s \<and> cam (logger_debug e s) = cam s
   \<and> reads (logger_debug e s) = reads s"
proof -
  have "exposure s = Some v \<longrightarrow>
      set_exposure v s
        = Some (Inr (), logger_debug (Debug ''Exposure time is already set to %s'' None) s)"
    by (simp add: set_exposure_def)
  moreover have "focal_height s = Some v \<longrightarrow>
      set_focus v s
        = Some (Inr (), logger_debug (Debug ''Focus position is already set to %s'' None) s)"
    by (simp add: set_focus_def)
  moreover have "row s = Some r \<and> column s = Some c \<longrightarrow>
      select r c s = Some (Inr (), logger_debug (Debug ''Already selected %s, %s'' None) s)"
    by (simp add: select_def)
  moreover have "gain s = Some v \<longrightarrow>
      set_gain v s
        = (if cam s = None then Some (Inl camera_not_initialized, s)
           else Some (Inr (), logger_debug (Debug ''Gain is already set to %s'' None) s))"
    by (auto simp: set_gain_def)
  moreover have "imaging_mode s = Some m \<longrightarrow>
      set_imaging_mode m s
        = (if cam s = None then Some (Inl camera_not_initialized, s)
           else Some (Inr (), logger_debug (Debug ''Imaging mode is already set to %s'' None) s))"
    by (auto simp: set_imaging_mode_def)
  moreover have "set_exposure v s = Some (Inr (), s1) \<longrightarrow>
      set_exposure v s1
        = Some (Inr (), logger_debug (Debug ''Exposure time is already set to %s'' None) s1)"
    using set_exposure_caches [of v s s1] by (simp add: set_exposure_def)
  moreover have "exposure s \<noteq> Some v \<and> set_exposure v s = Some (Inr (), s1) \<longrightarrow>
      (\<exists>c c1 calls. cam s = Some c \<and> cam s1 = Some c1 \<and> sdk c1 = sdk c @ calls \<and> calls \<noteq> [])"
    using set_exposure_first_call [of s v s1] by blast
  moreover have "wire (logger_debug e s) = wire s \<and> cam (logger_debug e s) = cam s
   \<and> reads (logger_debug e s) = reads s"
    by (simp add: logger_debug_def)
  ultimately show ?thesis by blast
qed

theorem cached_setters_skip_exchange_witness:
  "exposure cached_backend = Some (Num 5) \<and> focal_height cached_backend = Some (Num 5)
   \<and> row cached_backend = Some 1 \<and> column cached_backend = Some 2
   \<and> gain cached_backend = Some (Num 5) \<and> imaging_mode cached_backend = Some GFP
   \<and> wire cached_backend = []
   \<and> observed (set_exposure (Num 5) cached_backend) = Some (Inr (), [], Some [])
   \<and> observed (set_focus (Num 5) cached_backend) = Some (Inr (), [], Some [])
   \<and> observed (select 1 2 cached_backend) = Some (Inr (), [], Some [])
   \<and> observed (set_gain (Num 5) cached_backend) = Some (Inr (), [], Some [])
   \<and> observed (set_imaging_mode GFP cached_backend) = Some (Inr (), [], Some [])
   \<and> exposure fresh_backend \<noteq> Some (Num 5)
   \<and> set_exposure (Num 5) fresh_backend = Some (Inr (), exposed_backend)
   \<and> observed (set_exposure (Num 5) exposed_backend)
       = Some (Inr (), [], Some [ExposureAuto_SetValue Auto_Off, ExposureTime_SetValue 5000])"
  using cached_setters_skip_exchange
          [of cached_backend "Num 5" 1 2 GFP cached_backend "Debug [] None"]
        cached_setters_skip_exchange
          [of fresh_backend "Num 5" 1 2 GFP exposed_backend "Debug [] None"]
  by (simp add: cached_backend_def fresh_backend_def exposed_backend_def init_def
      demo_camera_def logger_debug_def set_exposure_def sdk_do_def py_int_def Let_def
      observed_def)

section \<open>The terminator-read loop\<close>

lemma read_until_loop_timeout:
  assumes "x \<noteq> Some char" "\<forall>n. rx s n \<noteq> char"
    "\<forall>j<k. \<not> tmo < clock s (ticks s + j) - t0"
    "tmo < clock s (ticks s + k) - t0"
  shows "read_until_loop char tmo t0 x res s
     = Some (Inl (TimeoutError ''Timeout while waiting for response''),
             (timed_out s (Suc k) (res @ concat (map (rx s) [reads s..<reads s + Suc k])))
               \<lparr>ticks := ticks s + Suc k\<rparr>)"
  using assms
proof (induction k arbitrary: x res s)
  case 0
  then show ?case
    by (subst read_until_loop.simps) (simp add: Let_def logger_debug_def timed_out_def)
next
  case (Suc k)
  define s2 where "s2 = s\<lparr>reads := Suc (reads s), ticks := Suc (ticks s)\<rparr>"
  from Suc.prems(3) have now: "\<not> tmo < clock s (ticks s) - t0" by force
  have step: "read_until_loop char tmo t0 x res s
      = read_until_loop char tmo t0 (Some (rx s (reads s))) (res @ rx s (reads s)) s2"
    using Suc.prems(1) now
    by (subst read_until_loop.simps) (simp add: Let_def s2_def)
  have "Some (rx s (reads s)) \<noteq> Some char" using Suc.prems(2) by simp
  moreover have "\<forall>n. rx s2 n \<noteq> char" using Suc.prems(2) by (simp add: s2_def)
  moreover have "\<forall>j<k. \<not> tmo < clock s2 (ticks s2 + j) - t0"
    using Suc.prems(3) by (auto simp: s2_def)
  moreover have "tmo < clock s2 (ticks s2 + k) - t0"
    using Suc.prems(4) by (simp add: s2_def)
  ultimately have "read_until_loop char tmo t0 (Some (rx s (reads s))) (res @ rx s (reads s)) s2
     = Some (Inl (TimeoutError ''Timeout while waiting for response''),
             (timed_out s2 (Suc k)
               ((res @ rx s (reads s)) @ concat (map (rx s2) [reads s2..<reads s2 + Suc k])))
               \<lparr>ticks := ticks s2 + Suc k\<rparr>)"
    by (rule Suc.IH)
  moreover have "[reads s..<reads s + Suc (Suc k)] = reads s # [reads s2..<reads s2 + Suc k]"
    by (simp add: s2_def upt_rec)
  ultimately show ?case
    using step by (simp add: timed_out_def s2_def)
qed

text \<open>
  Claim C4, as the code has it. When the device never sends the terminator and the clock
  at some reading exceeds the entry time by more than the budget, \<open>_read_until\<close> raises
  \<open>TimeoutError\<close> at the first such reading, after \<open>n > 0\<close> reads. The exception holds the
  fixed message only; the bytes accumulated so far are passed to the debug log and are not
  part of the exception.
\<close>

theorem read_until_timeout:
  assumes "\<forall>n. rx s n \<noteq> char"
    and "\<exists>k. (case tmo_opt of None \<Rightarrow> timeout s | Some t \<Rightarrow> t)
               < clock s (ticks s + Suc k) - clock s (ticks s)"
  shows "\<exists>n. read_until char tmo_opt s
      = Some (Inl (TimeoutError ''Timeout while waiting for response''),
              timed_out s n (concat (map (rx s) [reads s..<reads s + n])))
      \<and> 0 < n
      \<and> (case tmo_opt of None \<Rightarrow> timeout s | Some t \<Rightarrow> t)
            < clock s (ticks s + n) - clock s (ticks s)
      \<and> (\<forall>j<n. 0 < j \<longrightarrow> \<not> (case tmo_opt of None \<Rightarrow> timeout s | Some t \<Rightarrow> t)
            < clock s (ticks s + j) - clock s (ticks s))"
proof -
  define tmo where "tmo = (case tmo_opt of None \<Rightarrow> timeout s | Some t \<Rightarrow> t)"
  define t0 where "t0 = clock s (ticks s)"
  define s0 where "s0 = s\<lparr>ticks := Suc (ticks s)\<rparr>"
  define P where "P k \<longleftrightarrow> tmo < clock s (ticks s + Suc k) - t0" for k
  from assms(2) have "\<exists>k. P k" by (simp add: P_def tmo_def t0_def)
  define k where "k = (LEAST k. P k)"
  have Pk: "P k" using \<open>\<exists>k. P k\<close> unfolding k_def by (metis LeastI)
  have least: "\<forall>j<k. \<not> P j" unfolding k_def using not_less_Least by blast
  have "read_until_loop char tmo t0 None [] s0
     = Some (Inl (TimeoutError ''Timeout while waiting for response''),
             (timed_out s0 (Suc k) ([] @ concat (map (rx s0) [reads s0..<reads s0 + Suc k])))
               \<lparr>ticks := ticks s0 + Suc k\<rparr>)"
  proof (rule read_until_loop_timeout)
    show "None \<noteq> Some char" by simp
    show "\<forall>n. rx s0 n \<noteq> char" using assms(1) by (simp add: s0_def)
    show "\<forall>j<k. \<not> tmo < clock s0 (ticks s0 + j) - t0"
      using least by (simp add: s0_def P_def)
    show "tmo < clock s0 (ticks s0 + k) - t0" using Pk by (simp add: s0_def P_def)
  qed
  then have run: "read_until char tmo_opt s
      = Some (Inl (TimeoutError ''Timeout while waiting for response''),
              timed_out s (Suc k) (concat (map (rx s) [reads s..<reads s + Suc k])))"
    by (simp add: read_until_def Let_def tmo_def t0_def s0_def timed_out_def)
  have "\<forall>j<Suc k. 0 < j \<longrightarrow> \<not> tmo < clock s (ticks s + j) - t0"
  proof (intro allI impI)
    fix j assume "j < Suc k" "0 < j"
    then obtain i where "j = Suc i" "i < k" by (cases j) auto
    with least show "\<not> tmo < clock s (ticks s + j) - t0" by (simp add: P_def)
  qed
  with run Pk show ?thesis
    unfolding P_def tmo_def t0_def by (intro exI [of _ "Suc k"]) simp
qed

theorem read_until_timeout_witness:
  "(\<forall>n. rx backend_a n \<noteq> [ETX])
   \<and> timeout backend_a < clock backend_a (ticks backend_a + Suc 2) - clock backend_a (ticks backend_a)
   \<and> map_option fst (read_until [ETX] None backend_a)
       = Some (Inl (TimeoutError ''Timeout while waiting for response''))"
proof -
  have h1: "\<forall>n. rx backend_a n \<noteq> [ETX]"
    by (simp add: backend_a_def init_def chatter_a_def ETX_def)
  have h2: "timeout backend_a
      < clock backend_a (ticks backend_a + Suc 2) - clock backend_a (ticks backend_a)"
    by (simp add: backend_a_def init_def seconds_def)
  then have "\<exists>k. (case None of None \<Rightarrow> timeout backend_a | Some t \<Rightarrow> t)
      < clock backend_a (ticks backend_a + Suc k) - clock backend_a (ticks backend_a)"
    by (intro exI [of _ 2]) simp
  from read_until_timeout [OF h1 this] obtain n where
    "read_until [ETX] None backend_a
      = Some (Inl (TimeoutError ''Timeout while waiting for response''),
              timed_out backend_a n
                (concat (map (rx backend_a) [reads backend_a..<reads backend_a + n])))"
    by blast
  with h1 h2 show ?thesis by simp
qed

text \<open>
  Claim C4 as stated fails: two devices that send different bytes leave different
  accumulators (\<open>AAA\<close> and \<open>BBB\<close>, as the debug log shows), and the exception raised is the
  same value in both runs, so it does not carry the accumulator.
\<close>

theorem timeout_error_counterexample:
  "outcome_and_log (read_until [ETX] None backend_a)
     = Some (Inl (TimeoutError ''Timeout while waiting for response''),
             [Debug ''[cytation5] received incomplete %s'' (Some ''AAA'')])
   \<and> outcome_and_log (read_until [ETX] None backend_b)
     = Some (Inl (TimeoutError ''Timeout while waiting for response''),
             [Debug ''[cytation5] received incomplete %s'' (Some ''BBB'')])"
  by code_simp

section \<open>The shake session\<close>






section \<open>The image acquisition loop\<close>

lemma retried_first_iff:
  "retried_first c k \<longleftrightarrow> (\<forall>j<k. retried (acquisition c (attempts c + j)))"
proof
  assume a: "retried_first c k"
  show "\<forall>j<k. retried (acquisition c (attempts c + j))"
  proof (intro allI impI)
    fix j assume "j < k"
    then have "attempts c + j \<in> set [attempts c..<attempts c + k]" by simp
    with a show "retried (acquisition c (attempts c + j))"
      unfolding retried_first_def list_all_iff by simp
  qed
next
  assume a: "\<forall>j<k. retried (acquisition c (attempts c + j))"
  show "retried_first c k"
    unfolding retried_first_def list_all_iff
  proof
    fix y assume "y \<in> set (map (acquisition c) [attempts c..<attempts c + k])"
    then obtain x where x: "y = acquisition c x" "attempts c \<le> x" "x < attempts c + k" by auto
    then have "x - attempts c < k" "x = attempts c + (x - attempts c)" by simp_all
    with a x(1) show "retried y" by metis
  qed
qed

lemma acquire_loop_retries:
  "\<forall>j<k. retried (acquisition c (attempts c + j)) \<Longrightarrow> n + k \<le> m \<Longrightarrow>
   \<exists>c' lg'. acquire_loop alg fmt m n c lg = acquire_loop alg fmt m (n + k) c' lg'
      \<and> attempts c' = attempts c + k \<and> acquisition c' = acquisition c \<and> convert c' = convert c
      \<and> sdk c' = sdk c @ concat (replicate k [TriggerSoftware_Execute, GetNextImage])"
proof (induction k arbitrary: n c lg)
  case 0
  then show ?case by auto
next
  case (Suc k)
  from Suc.prems have r0: "retried (acquisition c (attempts c))" by force
  from Suc.prems have lt: "n < m" by simp
  define c1 where "c1 = c\<lparr>attempts := Suc (attempts c),
                  sdk := sdk c @ [TriggerSoftware_Execute, GetNextImage]\<rparr>"
  define lg1 where "lg1 = (if acquisition c (attempts c) = Spinnaker_exception
      then lg @ [Debug ''Failed to get image: %s'' None] else lg)"
  have step: "acquire_loop alg fmt m n c lg = acquire_loop alg fmt m (Suc n) c1 lg1"
    using r0 lt acquire_loop.simps [of alg fmt m n c lg]
    by (cases "acquisition c (attempts c)") (simp_all add: c1_def lg1_def)
  have "\<forall>j<k. retried (acquisition c1 (attempts c1 + j))"
    using Suc.prems(1) by (auto simp: c1_def)
  moreover have "Suc n + k \<le> m" using Suc.prems(2) by simp
  ultimately obtain c' lg' where
    "acquire_loop alg fmt m (Suc n) c1 lg1 = acquire_loop alg fmt m (Suc n + k) c' lg'"
    "attempts c' = attempts c1 + k" "acquisition c' = acquisition c1" "convert c' = convert c1"
    "sdk c' = sdk c1 @ concat (replicate k [TriggerSoftware_Execute, GetNextImage])"
    using Suc.IH [of c1 "Suc n" lg1] by blast
  with step show ?case
    by (intro exI [of _ c'] exI [of _ lg']) (simp add: c1_def)
qed

lemma acquire_loop_bound:
  "attempts (fst (snd (acquire_loop alg fmt m n c lg))) \<le> attempts c + (m - n)"
proof (induction alg fmt m n c lg rule: acquire_loop.induct)
  case (1 alg fmt m n c lg)
  show ?case
  proof (cases "n < m")
    case False
    then show ?thesis by (subst acquire_loop.simps) simp
  next
    case True
    show ?thesis
    proof (cases "acquisition c (attempts c)")
      case Trigger_not_writable
      with True show ?thesis by (subst acquire_loop.simps) simp
    next
      case Spinnaker_exception
      with True 1(1) show ?thesis by (subst acquire_loop.simps) fastforce
    next
      case Image_incomplete
      with True 1(2) show ?thesis by (subst acquire_loop.simps) fastforce
    next
      case (Image_complete x4)
      with True show ?thesis by (subst acquire_loop.simps) simp
    qed
  qed
qed

lemma acquire_loop_stop:
  "n < m \<Longrightarrow> \<not> retried (acquisition c (attempts c)) \<Longrightarrow>
   acquire_loop alg fmt m n c lg =
     (case acquisition c (attempts c) of
        Image_complete image_result \<Rightarrow>
          (Inr (convert c alg fmt image_result),
           c\<lparr>attempts := Suc (attempts c),
              sdk := sdk c @ [TriggerSoftware_Execute, GetNextImage, Release]\<rparr>, lg)
      | _ \<Rightarrow> (Inl (RuntimeError ''unable to execute software trigger''),
              c\<lparr>attempts := Suc (attempts c)\<rparr>, lg))"
  using acquire_loop.simps [of alg fmt m n c lg]
  by (cases "acquisition c (attempts c)") simp_all

lemma acquire_loop_exhausted:
  "acquire_loop alg fmt m m c lg = (Inl (TimeoutError ''max_image_read_attempts reached''), c, lg)"
  using acquire_loop.simps [of alg fmt m m c lg] by simp

lemma acquire_image_complete:
  assumes "cam s = Some c" "k < max_image_read_attempts s"
    "\<forall>j<k. retried (acquisition c (attempts c + j))"
    "acquisition c (attempts c + k) = Image_complete image_result"
  shows "\<exists>s' c'. acquire_image alg fmt s = Some (Inr (convert c alg fmt image_result), s')
      \<and> cam s' = Some c' \<and> attempts c' = attempts c + Suc k
      \<and> sdk c' = sdk c @ [BeginAcquisition]
           @ concat (replicate k [TriggerSoftware_Execute, GetNextImage])
           @ [TriggerSoftware_Execute, GetNextImage, Release, EndAcquisition]
      \<and> wire s' = wire s"
proof -
  define c0 where "c0 = sdk_do BeginAcquisition c"
  define m where "m = max_image_read_attempts s"
  have a0: "attempts c0 = attempts c" "acquisition c0 = acquisition c" "convert c0 = convert c"
    "sdk c0 = sdk c @ [BeginAcquisition]"
    by (simp_all add: c0_def sdk_do_def)
  from assms(3) a0 have "\<forall>j<k. retried (acquisition c0 (attempts c0 + j))" by simp
  moreover from assms(2) have "0 + k \<le> m" by (simp add: m_def)
  ultimately obtain c1 lg1 where c1:
    "acquire_loop alg fmt m 0 c0 (debug s) = acquire_loop alg fmt m (0 + k) c1 lg1"
    "attempts c1 = attempts c0 + k" "acquisition c1 = acquisition c0" "convert c1 = convert c0"
    "sdk c1 = sdk c0 @ concat (replicate k [TriggerSoftware_Execute, GetNextImage])"
    using acquire_loop_retries [of k c0 0 m alg fmt "debug s"] by blast
  have fin: "acquisition c1 (attempts c1) = Image_complete image_result"
    using c1 a0 assms(4) by simp
  have "acquire_loop alg fmt m k c1 lg1 =
      (Inr (convert c1 alg fmt image_result),
       c1\<lparr>attempts := Suc (attempts c1),
          sdk := sdk c1 @ [TriggerSoftware_Execute, GetNextImage, Release]\<rparr>, lg1)"
    using acquire_loop_stop [of k m c1 alg fmt lg1] assms(2) fin by (simp add: m_def)
  with c1 a0 assms(1) show ?thesis
    by (simp add: acquire_image_def c0_def m_def sdk_do_def)
qed

lemma acquire_image_timeout:
  assumes "cam s = Some c"
    "\<forall>j<max_image_read_attempts s. retried (acquisition c (attempts c + j))"
  shows "\<exists>s' c'. acquire_image alg fmt s
        = Some (Inl (TimeoutError ''max_image_read_attempts reached''), s')
      \<and> cam s' = Some c' \<and> attempts c' = attempts c + max_image_read_attempts s
      \<and> sdk c' = sdk c @ [BeginAcquisition]
           @ concat (replicate (max_image_read_attempts s) [TriggerSoftware_Execute, GetNextImage])
           @ [EndAcquisition]
      \<and> wire s' = wire s"
proof -
  define c0 where "c0 = sdk_do BeginAcquisition c"
  define m where "m = max_image_read_attempts s"
  have a0: "attempts c0 = attempts c" "acquisition c0 = acquisition c" "convert c0 = convert c"
    "sdk c0 = sdk c @ [BeginAcquisition]"
    by (simp_all add: c0_def sdk_do_def)
  from assms(2) a0 have "\<forall>j<m. retried (acquisition c0 (attempts c0 + j))" by (simp add: m_def)
  then obtain c1 lg1 where c1:
    "acquire_loop alg fmt m 0 c0 (debug s) = acquire_loop alg fmt m (0 + m) c1 lg1"
    "attempts c1 = attempts c0 + m" "acquisition c1 = acquisition c0" "convert c1 = convert c0"
    "sdk c1 = sdk c0 @ concat (replicate m [TriggerSoftware_Execute, GetNextImage])"
    using acquire_loop_retries [of m c0 0 m alg fmt "debug s"] by auto
  with a0 assms(1) show ?thesis
    by (simp add: acquire_image_def c0_def m_def sdk_do_def acquire_loop_exhausted)
qed

lemma acquire_image_not_writable:
  assumes "cam s = Some c" "k < max_image_read_attempts s"
    "\<forall>j<k. retried (acquisition c (attempts c + j))"
    "acquisition c (attempts c + k) = Trigger_not_writable"
  shows "\<exists>s' c'. acquire_image alg fmt s
        = Some (Inl (RuntimeError ''unable to execute software trigger''), s')
      \<and> cam s' = Some c' \<and> attempts c' = attempts c + Suc k
      \<and> wire s' = wire s"
proof -
  define c0 where "c0 = sdk_do BeginAcquisition c"
  define m where "m = max_image_read_attempts s"
  have a0: "attempts c0 = attempts c" "acquisition c0 = acquisition c" "convert c0 = convert c"
    "sdk c0 = sdk c @ [BeginAcquisition]"
    by (simp_all add: c0_def sdk_do_def)
  from assms(3) a0 have "\<forall>j<k. retried (acquisition c0 (attempts c0 + j))" by simp
  moreover from assms(2) have "0 + k \<le> m" by (simp add: m_def)
  ultimately obtain c1 lg1 where c1:
    "acquire_loop alg fmt m 0 c0 (debug s) = acquire_loop alg fmt m (0 + k) c1 lg1"
    "attempts c1 = attempts c0 + k" "acquisition c1 = acquisition c0" "convert c1 = convert c0"
    "sdk c1 = sdk c0 @ concat (replicate k [TriggerSoftware_Execute, GetNextImage])"
    using acquire_loop_retries [of k c0 0 m alg fmt "debug s"] by blast
  have fin: "acquisition c1 (attempts c1) = Trigger_not_writable"
    using c1 a0 assms(4) by simp
  have "acquire_loop alg fmt m k c1 lg1 =
      (Inl (RuntimeError ''unable to execute software trigger''),
       c1\<lparr>attempts := Suc (attempts c1)\<rparr>, lg1)"
    using acquire_loop_stop [of k m c1 alg fmt lg1] assms(2) fin by (simp add: m_def)
  with c1 a0 assms(1) show ?thesis
    by (simp add: acquire_image_def c0_def m_def sdk_do_def)
qed

lemma acquire_image_bound:
  assumes "cam s = Some c"
  shows "\<exists>r s' c'. acquire_image alg fmt s = Some (r, s') \<and> cam s' = Some c'
     \<and> attempts c' \<le> attempts c + max_image_read_attempts s"
proof -
  obtain r c1 lg1 where l: "acquire_loop alg fmt (max_image_read_attempts s) 0
      (sdk_do BeginAcquisition c) (debug s) = (r, c1, lg1)"
    by (metis prod_cases3)
  with acquire_loop_bound [of alg fmt "max_image_read_attempts s" 0 "sdk_do BeginAcquisition c" "debug s"]
  have "attempts c1 \<le> attempts c + max_image_read_attempts s" by (simp add: sdk_do_def)
  with l assms show ?thesis by (simp add: acquire_image_def sdk_do_def)
qed

text \<open>
  Claim C9, as the code has it. With the bound of 8 that \<open>__init__\<close> sets,
  \<open>_acquire_image\<close> starts at most 8 passes. When the first \<open>k < 8\<close> passes are retried
  (incomplete image or \<open>SpinnakerException\<close>) and the next one fetches a complete image,
  the converted image is returned after \<open>k + 1\<close> passes and no further pass is made. When
  all 8 passes are retried, 8 are made and \<open>TimeoutError\<close> is raised. When the first \<open>k < 8\<close>
  passes are retried and the next one finds the software trigger not writable,
  \<open>RuntimeError\<close> is raised at that pass. Acquisition is ended in each case and nothing is
  written to the serial device.
\<close>

theorem acquire_image_attempts:
  assumes "cam s = Some c" and "max_image_read_attempts s = 8"
  shows
    "(\<exists>r s' c'. acquire_image alg fmt s = Some (r, s') \<and> cam s' = Some c'
        \<and> attempts c' \<le> attempts c + 8)
     \<and> (k < 8 \<and> retried_first c k
          \<and> acquisition c (attempts c + k) = Image_complete image_result \<longrightarrow>
        (\<exists>s' c'. acquire_image alg fmt s = Some (Inr (convert c alg fmt image_result), s')
           \<and> cam s' = Some c' \<and> attempts c' = attempts c + Suc k
           \<and> sdk c' = sdk c @ [BeginAcquisition]
                @ concat (replicate k [TriggerSoftware_Execute, GetNextImage])
                @ [TriggerSoftware_Execute, GetNextImage, Release, EndAcquisition]
           \<and> wire s' = wire s))
     \<and> (retried_first c 8 \<longrightarrow>
        (\<exists>s' c'. acquire_image alg fmt s
              = Some (Inl (TimeoutError ''max_image_read_attempts reached''), s')
           \<and> cam s' = Some c' \<and> attempts c' = attempts c + 8
           \<and> sdk c' = sdk c @ [BeginAcquisition]
                @ concat (replicate 8 [TriggerSoftware_Execute, GetNextImage])
                @ [EndAcquisition]
           \<and> wire s' = wire s))
     \<and> (k < 8 \<and> retried_first c k
          \<and> acquisition c (attempts c + k) = Trigger_not_writable \<longrightarrow>
        (\<exists>s' c'. acquire_image alg fmt s
              = Some (Inl (RuntimeError ''unable to execute software trigger''), s')
           \<and> cam s' = Some c' \<and> attempts c' = attempts c + Suc k
           \<and> wire s' = wire s))"
proof (intro conjI impI)
  show "\<exists>r s' c'. acquire_image alg fmt s = Some (r, s') \<and> cam s' = Some c'
        \<and> attempts c' \<le> attempts c + 8"
    using acquire_image_bound [OF assms(1), of alg fmt] assms(2) by simp
next
  assume "k < 8 \<and> retried_first c k
      \<and> acquisition c (attempts c + k) = Image_complete image_result"
  then show "\<exists>s' c'. acquire_image alg fmt s = Some (Inr (convert c alg fmt image_result), s')
           \<and> cam s' = Some c' \<and> attempts c' = attempts c + Suc k
           \<and> sdk c' = sdk c @ [BeginAcquisition]
                @ concat (replicate k [TriggerSoftware_Execute, GetNextImage])
                @ [TriggerSoftware_Execute, GetNextImage, Release, EndAcquisition]
           \<and> wire s' = wire s"
    using acquire_image_complete [OF assms(1), of k image_result alg fmt] assms(2)
    by (simp add: retried_first_iff)
next
  assume "retried_first c 8"
  then show "\<exists>s' c'. acquire_image alg fmt s
              = Some (Inl (TimeoutError ''max_image_read_attempts reached''), s')
           \<and> cam s' = Some c' \<and> attempts c' = attempts c + 8
           \<and> sdk c' = sdk c @ [BeginAcquisition]
                @ concat (replicate 8 [TriggerSoftware_Execute, GetNextImage])
                @ [EndAcquisition]
           \<and> wire s' = wire s"
    using acquire_image_timeout [OF assms(1), of alg fmt] assms(2)
    by (simp add: retried_first_iff)
next
  assume "k < 8 \<and> retried_first c k
      \<and> acquisition c (attempts c + k) = Trigger_not_writable"
  then show "\<exists>s' c'. acquire_image alg fmt s
              = Some (Inl (RuntimeError ''unable to execute software trigger''), s')
           \<and> cam s' = Some c' \<and> attempts c' = attempts c + Suc k
           \<and> wire s' = wire s"
    using acquire_image_not_writable [OF assms(1), of k alg fmt] assms(2)
    by (simp add: retried_first_iff)
qed

theorem acquire_image_attempts_witness:
  "cam fourth_backend = Some fourth_camera \<and> max_image_read_attempts fourth_backend = 8
   \<and> retried_first fourth_camera 3
   \<and> acquisition fourth_camera (attempts fourth_camera + 3) = Image_complete [[3]]
   \<and> acquired (acquire_image 0 0 fourth_backend)
       = Some (Inr [[3]], Some 4,
               Some [BeginAcquisition, TriggerSoftware_Execute, GetNextImage,
                     TriggerSoftware_Execute, GetNextImage, TriggerSoftware_Execute,
                     GetNextImage, TriggerSoftware_Execute, GetNextImage, Release,
                     EndAcquisition])
   \<and> cam fresh_backend = Some demo_camera \<and> max_image_read_attempts fresh_backend = 8
   \<and> retried_first demo_camera 8
   \<and> map_option fst (acquire_image 0 0 fresh_backend)
       = Some (Inl (TimeoutError ''max_image_read_attempts reached''))
   \<and> cam unwritable_backend = Some unwritable_camera
   \<and> max_image_read_attempts unwritable_backend = 8
   \<and> retried_first unwritable_camera 0
   \<and> acquisition unwritable_camera (attempts unwritable_camera + 0) = Trigger_not_writable
   \<and> map_option fst (acquire_image 0 0 unwritable_backend)
       = Some (Inl (RuntimeError ''unable to execute software trigger''))"
proof -
  have a: "cam fourth_backend = Some fourth_camera" "max_image_read_attempts fourth_backend = 8"
    by (simp_all add: fourth_backend_def init_def)
  have b: "retried_first fourth_camera 3"
    "acquisition fourth_camera (attempts fourth_camera + 3) = Image_complete [[3]]"
    by code_simp+
  have c: "cam fresh_backend = Some demo_camera" "max_image_read_attempts fresh_backend = 8"
    by (simp_all add: fresh_backend_def init_def)
  have d: "retried_first demo_camera 8" by code_simp
  have e: "cam unwritable_backend = Some unwritable_camera"
    "max_image_read_attempts unwritable_backend = 8"
    by (simp_all add: unwritable_backend_def init_def)
  have f: "retried_first unwritable_camera 0"
    "acquisition unwritable_camera (attempts unwritable_camera + 0) = Trigger_not_writable"
    by code_simp+
  have cv: "convert fourth_camera 0 0 [[3]] = [[3]]"
    by (simp add: fourth_camera_def demo_camera_def)
  have sd: "sdk fourth_camera = []" "attempts fourth_camera = 0"
    by (simp_all add: fourth_camera_def demo_camera_def)
  from acquire_image_attempts [OF a, of 0 0 3 "[[3]]"] b cv sd
  have 1: "acquired (acquire_image 0 0 fourth_backend)
       = Some (Inr [[3]], Some 4,
               Some [BeginAcquisition, TriggerSoftware_Execute, GetNextImage,
                     TriggerSoftware_Execute, GetNextImage, TriggerSoftware_Execute,
                     GetNextImage, TriggerSoftware_Execute, GetNextImage, Release,
                     EndAcquisition])"
    by (auto simp: acquired_def numeral_3_eq_3)
  from acquire_image_attempts [OF c, of 0 0 0 "[]"] d
  have 2: "map_option fst (acquire_image 0 0 fresh_backend)
       = Some (Inl (TimeoutError ''max_image_read_attempts reached''))"
    by auto
  from acquire_image_attempts [OF e, of 0 0 0 "[]"] f
  have 3: "map_option fst (acquire_image 0 0 unwritable_backend)
       = Some (Inl (RuntimeError ''unable to execute software trigger''))"
    by auto
  from a b c d e f 1 2 3 show ?thesis by blast
qed

text \<open>
  Claim C9 as stated fails for a camera whose software trigger is not writable: no pass
  yields a complete image, and \<open>_acquire_image\<close> raises \<open>RuntimeError\<close> at the first pass,
  without trigger or fetch, instead of \<open>TimeoutError\<close> after eight.
\<close>

theorem acquire_not_writable_counterexample:
  "acquired (acquire_image 0 0 unwritable_backend)
     = Some (Inl (RuntimeError ''unable to execute software trigger''), Some 1,
             Some [BeginAcquisition, EndAcquisition])"
  by (simp add: acquired_def acquire_image_def unwritable_backend_def init_def
      unwritable_camera_def demo_camera_def sdk_do_def acquire_loop.simps)

section \<open>The response parser on well-formed bodies\<close>

lemma prefix_append_long: "length sub \<le> length a \<Longrightarrow> prefix sub (a @ rest) = prefix sub a"
  by (metis prefix_append prefix_length_le prefix_order.antisym prefix_order.order_refl prefix_length_prefix append_prefixD prefixI prefix_def)

lemma index_bytes_self: "index_bytes sub (sub @ rest) = Some 0"
proof (cases "sub @ rest")
  case Nil
  then show ?thesis by simp
next
  case (Cons a l)
  have "prefix sub (sub @ rest)" by simp
  with Cons show ?thesis by simp
qed

lemma index_bytes_extend:
  "index_bytes sub (pre @ sub) = Some (length pre) \<Longrightarrow>
   index_bytes sub (pre @ sub @ rest) = Some (length pre)"
proof (induction pre)
  case Nil
  show ?case using index_bytes_self [of sub rest] by simp
next
  case (Cons x pre)
  have len: "length sub \<le> length ((x # pre) @ sub)" by simp
  from Cons.prems have np: "\<not> prefix sub ((x # pre) @ sub)"
    by (auto split: if_splits)
  then have np': "\<not> prefix sub ((x # pre) @ sub @ rest)"
    using prefix_append_long [OF len, of rest] by simp
  from Cons.prems np have "index_bytes sub (pre @ sub) = Some (length pre)"
    by (auto split: if_splits)
  then have "index_bytes sub (pre @ sub @ rest) = Some (length pre)" by (rule Cons.IH)
  with np' show ?case by simp
qed

lemma rindex_bytes_none: "c \<notin> set s \<Longrightarrow> rindex_bytes (c # sub) s = None"
  by (induction s) auto

lemma rindex_bytes_shift:
  "rindex_bytes sub b = Some i \<Longrightarrow> rindex_bytes sub (a @ b) = Some (length a + i)"
  by (induction a) auto

lemma rindex_bytes_last:
  assumes "c \<notin> set sub" "c \<notin> set suf"
  shows "rindex_bytes (c # sub) (a @ (c # sub) @ suf) = Some (length a)"
proof -
  from assms have "rindex_bytes (c # sub) (sub @ suf) = None"
    by (intro rindex_bytes_none) simp
  then have "rindex_bytes (c # sub) ((c # sub) @ suf) = Some 0" by simp
  then show ?thesis using rindex_bytes_shift [of "c # sub" "(c # sub) @ suf" 0 a] by simp
qed

lemma split_from_piece:
  "c \<notin> set r \<Longrightarrow>
   split_from (c # sep) cur (r @ (c # sep) @ rest) = (cur @ r) # split_from (c # sep) [] rest"
  by (induction r arbitrary: cur) auto

lemma split_from_last: "c \<notin> set r \<Longrightarrow> split_from (c # sep) cur r = [cur @ r]"
  by (induction r arbitrary: cur) auto

lemma split_from_join:
  "\<forall>t \<in> set (t0 # ts). c \<notin> set t \<Longrightarrow>
   split_from (c # sep) [] (join_bytes (c # sep) (t0 # ts)) = t0 # ts"
proof (induction ts arbitrary: t0)
  case Nil
  then show ?case by (simp add: split_from_last)
next
  case (Cons t ts)
  have "split_from (c # sep) [] (join_bytes (c # sep) (t0 # t # ts))
      = split_from (c # sep) [] (t0 @ (c # sep) @ join_bytes (c # sep) (t # ts))"
    by simp
  also have "\<dots> = ([] @ t0) # split_from (c # sep) [] (join_bytes (c # sep) (t # ts))"
    using Cons.prems by (intro split_from_piece) simp
  also have "split_from (c # sep) [] (join_bytes (c # sep) (t # ts)) = t # ts"
    using Cons.prems by (intro Cons.IH) simp
  finally show ?case by simp
qed

lemma join_bytes_set:
  "set (join_bytes sep xs) \<subseteq> set sep \<union> (\<Union>x \<in> set xs. set x)"
  by (induction sep xs rule: join_bytes.induct) auto

lemma grouped3_render: "grouped3 (concat (map render_group groups)) = map render_group groups"
proof (induction groups)
  case Nil
  show ?case by (subst grouped3.simps) simp
next
  case (Cons g groups)
  obtain r c v where g: "g = (r, c, v)" by (cases g)
  show ?case using Cons.IH by (subst grouped3.simps) (simp add: g)
qed

lemma parse_groups_render:
  "list_all (\<lambda>g. group_value to_float g \<noteq> None) groups \<Longrightarrow>
   parse_groups to_float (map render_group groups)
     = Inr (map (\<lambda>g. the (group_value to_float g)) groups)"
proof (induction groups)
  case Nil
  show ?case by simp
next
  case (Cons g groups)
  obtain r c v where g: "g = (r, c, v)" by (cases g)
  from Cons show ?case by (auto simp: g)
qed

lemma render_group_fields:
  "list_all group_ok groups \<Longrightarrow> \<forall>f \<in> set (concat (map render_group groups)). field_ok f"
  by (induction groups) auto

lemma concat_render_nonempty: "groups \<noteq> [] \<Longrightarrow> concat (map render_group groups) \<noteq> []"
  by (cases groups) auto

lemma split_render_row:
  assumes "row_ok groups"
  shows "split_bytes '','' (render_row groups) = concat (map render_group groups)"
proof -
  from assms have "groups \<noteq> []" by (simp add: row_ok_def)
  then have ne: "concat (map render_group groups) \<noteq> []" by (rule concat_render_nonempty)
  then obtain f fs where fs: "concat (map render_group groups) = f # fs"
    by (cases "concat (map render_group groups)") auto
  from assms have "\<forall>t \<in> set (f # fs). CHR '','' \<notin> set t"
    using render_group_fields [of groups] by (simp add: row_ok_def fs field_ok_def)
  then have "split_from (CHR '','' # []) [] (join_bytes (CHR '','' # []) (f # fs)) = f # fs"
    by (rule split_from_join)
  then show ?thesis by (simp add: split_bytes_def render_row_def fs)
qed

lemma render_row_no_cr:
  assumes "row_ok groups"
  shows "CHR 0x0D \<notin> set (render_row groups)"
proof -
  from assms have "\<forall>f \<in> set (concat (map render_group groups)). CHR 0x0D \<notin> set f"
    using render_group_fields [of groups] by (simp add: row_ok_def field_ok_def)
  then show ?thesis
    using join_bytes_set [of "'',''" "concat (map render_group groups)"]
    unfolding render_row_def by auto
qed

lemma parse_rows_render:
  "list_all row_ok rows \<Longrightarrow> convertible to_float rows \<Longrightarrow>
   parse_rows to_float (map render_row rows) = Inr (values_of to_float rows)"
proof (induction rows)
  case Nil
  show ?case by (simp add: values_of_def)
next
  case (Cons groups rows)
  then show ?case
    by (simp add: split_render_row grouped3_render parse_groups_render convertible_def
        values_of_def)
qed


lemma render_row_marker:
  assumes "starts_at_origin rows" "list_all row_ok rows"
  shows "\<exists>rest. join_bytes row_sep (map render_row rows) = ''01,01'' @ rest"
proof -
  from assms(1) obtain v groups rows' where rows: "rows = ((''01'', ''01'', v) # groups) # rows'"
    by (cases rows rule: starts_at_origin.cases) auto
  have "\<exists>rest. render_row ((''01'', ''01'', v) # groups) = ''01,01'' @ rest"
    by (cases groups) (auto simp: render_row_def)
  then obtain rest where "render_row ((''01'', ''01'', v) # groups) = ''01,01'' @ rest" by blast
  then show ?thesis by (cases rows') (simp_all add: rows)
qed

lemma split_rendered_rows:
  assumes "rows \<noteq> []" "list_all row_ok rows"
  shows "split_bytes row_sep (join_bytes row_sep (map render_row rows)) = map render_row rows"
proof -
  from assms(1) obtain r rs where rows: "rows = r # rs" by (cases rows) auto
  have "\<forall>t \<in> set (render_row r # map render_row rs). CHR 0x0D \<notin> set t"
    using assms(2) render_row_no_cr by (auto simp: rows list_all_iff)
  then have "split_from (CHR 0x0D # [CHR 0x0A, CHR '','']) []
      (join_bytes (CHR 0x0D # [CHR 0x0A, CHR '','']) (render_row r # map render_row rs))
      = render_row r # map render_row rs"
    by (rule split_from_join)
  then show ?thesis by (simp add: split_bytes_def row_sep_def CRLF_def rows)
qed

lemma parse_body_rendered:
  assumes "rows \<noteq> []" "list_all row_ok rows" "starts_at_origin rows" "marker_first pre"
    "CHR 0x0D \<notin> set suf" "convertible to_float rows"
  shows "parse_body to_float (render_body pre rows suf)
      = Inr (values_of to_float (take num_rows rows))"
proof -
  define data where "data = join_bytes row_sep (map render_row rows)"
  obtain rest where rest: "data = ''01,01'' @ rest"
    using render_row_marker [OF assms(3) assms(2)] unfolding data_def by blast
  have body: "render_body pre rows suf = pre @ data @ CRLF @ suf"
    by (simp add: render_body_def data_def)
  have "index_bytes ''01,01'' (pre @ ''01,01'' @ (rest @ CRLF @ suf)) = Some (length pre)"
    using assms(4) unfolding marker_first_def by (rule index_bytes_extend)
  then have start: "index_bytes ''01,01'' (render_body pre rows suf) = Some (length pre)"
    by (simp add: body rest)
  have "rindex_bytes (CHR 0x0D # [CHR 0x0A]) ((pre @ data) @ (CHR 0x0D # [CHR 0x0A]) @ suf)
      = Some (length (pre @ data))"
    using assms(5) by (intro rindex_bytes_last) simp_all
  then have stop: "rindex_bytes CRLF (render_body pre rows suf) = Some (length pre + length data)"
    by (simp add: body CRLF_def)
  have sl: "slice (length pre) (length pre + length data) (render_body pre rows suf) = data"
    by (simp add: slice_def body)
  have sp: "split_bytes row_sep data = map render_row rows"
    unfolding data_def using assms(1,2) by (rule split_rendered_rows)
  have "list_all row_ok (take num_rows rows)"
    using assms(2) by (auto simp: list_all_iff dest: in_set_takeD)
  moreover have "convertible to_float (take num_rows rows)"
    using assms(6) by (auto simp: convertible_def list_all_iff dest: in_set_takeD)
  ultimately have "parse_rows to_float (map render_row (take num_rows rows))
      = Inr (values_of to_float (take num_rows rows))"
    by (rule parse_rows_render)
  then show ?thesis
    by (simp add: parse_body_def start stop sl sp take_map)
qed

lemma parse_rows_length: "parse_rows to_float rows = Inr m \<Longrightarrow> length m = length rows"
  by (induction rows arbitrary: m) (auto simp: Let_def split: sum.splits)

lemma parse_body_at_most_8: "parse_body to_float body = Inr m \<Longrightarrow> length m \<le> num_rows"
  by (auto simp: parse_body_def Let_def split: option.splits dest!: parse_rows_length)


text \<open>
  Claim C6. Let a body consist of some bytes in which the marker does not occur, then
  eight rows joined by CR LF comma, then CR LF, then bytes without carriage return; let
  every row be a non-empty list of groups of three fields without comma and carriage
  return, the first group being that of row 01 and column 01, and let \<open>float\<close> accept every
  third field. Then \<open>_parse_body\<close> returns the matrix of the converted third fields: eight
  rows, each with one entry per group, in the order of the body.
\<close>

theorem parse_body_eight_rows:
  assumes "length rows = 8" "list_all row_ok rows" "starts_at_origin rows" "marker_first pre"
    "CHR 0x0D \<notin> set suf" "convertible to_float rows"
  shows "parse_body to_float (render_body pre rows suf) = Inr (values_of to_float rows)
     \<and> length (values_of to_float rows) = 8
     \<and> map length (values_of to_float rows) = map length rows"
proof -
  from assms(1) have "rows \<noteq> []" by auto
  then have "parse_body to_float (render_body pre rows suf)
      = Inr (values_of to_float (take num_rows rows))"
    using assms(2-6) by (rule parse_body_rendered)
  with assms(1) show ?thesis by (simp add: num_rows_def values_of_def)
qed

theorem parse_body_eight_rows_witness:
  "length eight_rows = 8 \<and> list_all row_ok eight_rows \<and> starts_at_origin eight_rows
   \<and> marker_first [ACK] \<and> CHR 0x0D \<notin> set [ETX] \<and> convertible Some eight_rows
   \<and> parse_body Some (render_body [ACK] eight_rows [ETX])
       = Inr [[''0.11'', ''0.12''], [''0.21'', ''0.22''], [''0.31'', ''0.32''],
              [''0.41'', ''0.42''], [''0.51'', ''0.52''], [''0.61'', ''0.62''],
              [''0.71'', ''0.72''], [''0.81'', ''0.82'']]"
proof -
  have h: "length eight_rows = 8" "list_all row_ok eight_rows" "starts_at_origin eight_rows"
    "marker_first [ACK]" "CHR 0x0D \<notin> set [ETX]" "convertible Some eight_rows"
    by code_simp+
  have v: "values_of Some eight_rows
      = [[''0.11'', ''0.12''], [''0.21'', ''0.22''], [''0.31'', ''0.32''],
         [''0.41'', ''0.42''], [''0.51'', ''0.52''], [''0.61'', ''0.62''],
         [''0.71'', ''0.72''], [''0.81'', ''0.82'']]"
    by code_simp
  from parse_body_eight_rows [OF h] v h show ?thesis by simp
qed

text \<open>
  Claim C3, as the code has it. \<open>_parse_body\<close> does not count the rows: it takes up to
  eight of the segments it finds. For a body as above with seven rows it returns the
  matrix of the converted third fields, seven rows long, and raises nothing. A matrix it
  returns never has more than eight rows.
\<close>

theorem parse_body_seven_rows:
  assumes "length rows = 7" "list_all row_ok rows" "starts_at_origin rows" "marker_first pre"
    "CHR 0x0D \<notin> set suf" "convertible to_float rows"
  shows "parse_body to_float (render_body pre rows suf) = Inr (values_of to_float rows)
     \<and> length (values_of to_float rows) = 7
     \<and> (parse_body to_float body = Inr m \<longrightarrow> length m \<le> 8)"
proof -
  from assms(1) have "rows \<noteq> []" by auto
  then have "parse_body to_float (render_body pre rows suf)
      = Inr (values_of to_float (take num_rows rows))"
    using assms(2-6) by (rule parse_body_rendered)
  moreover have "parse_body to_float body = Inr m \<longrightarrow> length m \<le> 8"
    using parse_body_at_most_8 [of to_float body m] by (simp add: num_rows_def)
  ultimately show ?thesis using assms(1) by (simp add: num_rows_def values_of_def)
qed

theorem parse_body_seven_rows_witness:
  "length seven_rows = 7 \<and> list_all row_ok seven_rows \<and> starts_at_origin seven_rows
   \<and> marker_first [ACK] \<and> CHR 0x0D \<notin> set [ETX] \<and> convertible Some seven_rows
   \<and> parse_body Some (render_body [ACK] seven_rows [ETX])
       = Inr [[''0.11'', ''0.12''], [''0.21'', ''0.22''], [''0.31'', ''0.32''],
              [''0.41'', ''0.42''], [''0.51'', ''0.52''], [''0.61'', ''0.62''],
              [''0.71'', ''0.72'']]"
proof -
  have h: "length seven_rows = 7" "list_all row_ok seven_rows" "starts_at_origin seven_rows"
    "marker_first [ACK]" "CHR 0x0D \<notin> set [ETX]" "convertible Some seven_rows"
    by code_simp+
  have v: "values_of Some seven_rows
      = [[''0.11'', ''0.12''], [''0.21'', ''0.22''], [''0.31'', ''0.32''],
         [''0.41'', ''0.42''], [''0.51'', ''0.52''], [''0.61'', ''0.62''],
         [''0.71'', ''0.72'']]"
    by code_simp
  from parse_body_seven_rows [OF h, of "[]" "[]"] v h show ?thesis by simp
qed

text \<open>
  Claim C3 as stated fails: on a response that holds the marker and seven rows, the parser
  returns a matrix of seven rows.
\<close>

theorem parse_body_seven_rows_counterexample:
  "parse_body Some seven_row_body
     = Inr [[''0.1''], [''0.2''], [''0.3''], [''0.4''], [''0.5''], [''0.6''], [''0.7'']]
   \<and> length [[''0.1''], [''0.2''], [''0.3''], [''0.4''], [''0.5''], [''0.6''], [''0.7'']] = 7"
  by code_simp

end
